theory Spec2Isabelle
  imports Complex_Main
begin

section \<open>TechForge agent orchestration engine: data model\<close>

text \<open>
  The development follows \<^verbatim>\<open>src/orchestration/orchestrator.py\<close>. Python's
  \<^verbatim>\<open>float\<close> is modelled by \<^typ>\<open>real\<close>, \<^verbatim>\<open>int\<close> by \<^typ>\<open>int\<close> or
  \<^typ>\<open>nat\<close> (for lengths and counters), \<^verbatim>\<open>str\<close> by \<^typ>\<open>string\<close>. An exception is
  a value of type \<open>error\<close> on the left of a sum.
\<close>

datatype error = KeyError | IndexError | ZeroDivisionError

datatype TaskComplexity = SIMPLE | MODERATE | COMPLEX | EXPERT

datatype TaskDomain =
    BACKEND | FRONTEND | DATABASE | DEVOPS | SECURITY | TESTING | ML_AI
  | MOBILE | GAME | IOT | DESIGN | REFACTORING | FULL_STACK

text \<open>The dataclass \<^verbatim>\<open>SubTask\<close>; its field \<^verbatim>\<open>id\<close> is \<open>subtask_id\<close> here.
  The field \<^verbatim>\<open>metadata\<close> is never read or written by the engine and is left out.\<close>

record SubTask =
  subtask_id :: string
  description :: string
  agent_id :: string
  domain :: TaskDomain
  dependencies :: "string list"
  priority :: int
  estimated_time :: real

text \<open>The dataclass \<^verbatim>\<open>TaskAnalysis\<close>; the fields \<^verbatim>\<open>dependencies\<close> and
  \<^verbatim>\<open>estimated_time\<close> carry the prefix \<open>analysis\<close> to keep them apart from those of
  \<open>SubTask\<close>. The dictionary \<^verbatim>\<open>dependencies\<close> is a map.\<close>

record TaskAnalysis =
  task_id :: string
  original_task :: string
  complexity :: TaskComplexity
  domains :: "TaskDomain list"
  required_agents :: "string list"
  subtasks :: "SubTask list"
  analysis_dependencies :: "string \<rightharpoonup> string list"
  analysis_estimated_time :: real
  confidence :: real

subsection \<open>The capability registry and the pattern table\<close>

record capability =
  cap_domains :: "TaskDomain list"
  skills :: "string list"
  complexity_limit :: TaskComplexity
  parallel_capacity :: nat

definition mk_capability ::
  "TaskDomain list \<Rightarrow> string list \<Rightarrow> TaskComplexity \<Rightarrow> nat \<Rightarrow> capability" where
  "mk_capability ds ss c n =
     \<lparr>cap_domains = ds, skills = ss, complexity_limit = c, parallel_capacity = n\<rparr>"

text \<open>\<^verbatim>\<open>AGENT_CAPABILITIES\<close>, a dictionary literal: the association list keeps the
  insertion order, which is the order in which Python iterates over it.\<close>

definition AGENT_CAPABILITIES :: "(string \<times> capability) list" where
  "AGENT_CAPABILITIES =
    [(''backend-expert'', mk_capability [BACKEND, FULL_STACK]
        [''api'', ''microservices'', ''database'', ''authentication'', ''performance''] EXPERT 3),
     (''frontend-expert'', mk_capability [FRONTEND, FULL_STACK]
        [''ui'', ''responsive'', ''spa'', ''components'', ''state-management''] EXPERT 3),
     (''database-expert'', mk_capability [DATABASE]
        [''schema'', ''optimization'', ''migration'', ''replication'', ''nosql''] EXPERT 2),
     (''devops-expert'', mk_capability [DEVOPS]
        [''ci-cd'', ''infrastructure'', ''deployment'', ''monitoring'', ''cloud''] EXPERT 2),
     (''security-expert'', mk_capability [SECURITY]
        [''audit'', ''penetration'', ''encryption'', ''compliance'', ''authentication''] EXPERT 2),
     (''qa-expert'', mk_capability [TESTING]
        [''unit-testing'', ''e2e'', ''performance'', ''automation'', ''coverage''] COMPLEX 3),
     (''ai-ml-expert'', mk_capability [ML_AI]
        [''training'', ''models'', ''inference'', ''data-pipeline'', ''optimization''] EXPERT 1),
     (''mobile-expert'', mk_capability [MOBILE]
        [''ios'', ''android'', ''cross-platform'', ''native'', ''responsive''] EXPERT 2),
     (''game-expert'', mk_capability [GAME]
        [''graphics'', ''physics'', ''multiplayer'', ''optimization'', ''engines''] EXPERT 1),
     (''hardware-iot-expert'', mk_capability [IOT]
        [''embedded'', ''sensors'', ''protocols'', ''firmware'', ''edge-computing''] COMPLEX 1),
     (''uiux-principal'', mk_capability [DESIGN]
        [''ux'', ''accessibility'', ''design-systems'', ''prototyping'', ''research''] COMPLEX 2),
     (''web-design-agent'', mk_capability [DESIGN, FRONTEND]
        [''web-design'', ''seo'', ''performance'', ''pwa'', ''responsive''] COMPLEX 2),
     (''refactor-agent'', mk_capability [REFACTORING]
        [''code-quality'', ''patterns'', ''modernization'', ''debt-reduction'', ''automation'']
        EXPERT 1)]"

record pattern =
  pattern_keywords :: "string list"
  pattern_agents :: "string list"
  pattern_complexity :: TaskComplexity

definition mk_pattern :: "string list \<Rightarrow> string list \<Rightarrow> TaskComplexity \<Rightarrow> pattern" where
  "mk_pattern ks as c = \<lparr>pattern_keywords = ks, pattern_agents = as, pattern_complexity = c\<rparr>"

definition TASK_PATTERNS :: "(string \<times> pattern) list" where
  "TASK_PATTERNS =
    [(''api_creation'', mk_pattern [''api'', ''rest'', ''graphql'', ''endpoint'', ''service'']
        [''backend-expert''] MODERATE),
     (''ui_component'', mk_pattern [''component'', ''ui'', ''interface'', ''widget'', ''frontend'']
        [''frontend-expert''] SIMPLE),
     (''full_stack_feature'', mk_pattern [''feature'', ''application'', ''full-stack'', ''end-to-end'']
        [''backend-expert'', ''frontend-expert'', ''database-expert''] COMPLEX),
     (''database_optimization'',
        mk_pattern [''database'', ''query'', ''optimize'', ''performance'', ''index'']
        [''database-expert''] MODERATE),
     (''security_audit'',
        mk_pattern [''security'', ''vulnerability'', ''audit'', ''penetration'', ''compliance'']
        [''security-expert''] COMPLEX),
     (''deployment'', mk_pattern [''deploy'', ''ci/cd'', ''pipeline'', ''infrastructure'', ''cloud'']
        [''devops-expert''] MODERATE),
     (''testing'', mk_pattern [''test'', ''testing'', ''qa'', ''coverage'', ''automation'']
        [''qa-expert''] MODERATE),
     (''ml_model'', mk_pattern [''machine learning'', ''ml'', ''ai'', ''model'', ''training'']
        [''ai-ml-expert''] COMPLEX),
     (''mobile_app'', mk_pattern [''mobile'', ''ios'', ''android'', ''app'', ''native'']
        [''mobile-expert''] COMPLEX),
     (''refactoring'', mk_pattern [''refactor'', ''clean'', ''optimize'', ''modernize'', ''tech debt'']
        [''refactor-agent''] MODERATE)]"

subsection \<open>Strings\<close>

text \<open>\<^verbatim>\<open>str.lower\<close> on the ASCII letters; every other character is kept. All keywords
  of the engine are lower-case ASCII.\<close>

definition lower_char :: "char \<Rightarrow> char" where
  "lower_char c =
     (case map_of (zip ''ABCDEFGHIJKLMNOPQRSTUVWXYZ'' ''abcdefghijklmnopqrstuvwxyz'') c of
        Some l \<Rightarrow> l
      | None \<Rightarrow> c)"

definition lower :: "string \<Rightarrow> string" where
  "lower s = map lower_char s"

text \<open>\<^verbatim>\<open>s.startswith(k)\<close> and the substring test \<^verbatim>\<open>k in s\<close>.\<close>

fun startswith :: "string \<Rightarrow> string \<Rightarrow> bool" where
  "startswith s [] = True"
| "startswith [] (k # ks) = False"
| "startswith (c # cs) (k # ks) = (c = k \<and> startswith cs ks)"

fun contains :: "string \<Rightarrow> string \<Rightarrow> bool" where
  "contains [] k = (k = [])"
| "contains (c # cs) k = (startswith (c # cs) k \<or> contains cs k)"

text \<open>\<^verbatim>\<open>any(keyword in task_lower for keyword in ks)\<close>\<close>

definition any_keyword :: "string list \<Rightarrow> string \<Rightarrow> bool" where
  "any_keyword ks task_lower = list_ex (\<lambda>keyword. contains task_lower keyword) ks"

subsection \<open>Sources of non-determinism\<close>

text \<open>
  Two things in \<^verbatim>\<open>analyze_task\<close> are not functions of the task text: the identifiers
  drawn from \<^verbatim>\<open>uuid4().hex[:8]\<close>, and the order in which \<^verbatim>\<open>list(s)\<close> enumerates a
  Python set \<open>s\<close>. Both are parameters of the model. \<open>uuid4_hex8 k\<close> is the result of the
  \<open>k\<close>-th call; a set is represented by the list of its insertions and
  \<open>domain_order\<close>, \<open>agent_order\<close> turn such a list into the enumeration of the set.
\<close>

record nondet =
  uuid4_hex8 :: "nat \<Rightarrow> string"
  domain_order :: "TaskDomain list \<Rightarrow> TaskDomain list"
  agent_order :: "string list \<Rightarrow> string list"

text \<open>An enumeration of a set lists exactly its elements, each once.\<close>

definition set_order :: "('a list \<Rightarrow> 'a list) \<Rightarrow> bool" where
  "set_order f = (\<forall>xs. set (f xs) = set xs \<and> distinct (f xs))"

definition valid_nondet :: "nondet \<Rightarrow> bool" where
  "valid_nondet nd = (set_order (domain_order nd) \<and> set_order (agent_order nd))"

section \<open>Task analysis\<close>

subsection \<open>\<^verbatim>\<open>_identify_domains\<close>\<close>

text \<open>The inner loop \<^verbatim>\<open>for agent in pattern_info['agents']\<close>: the lookup
  \<^verbatim>\<open>AGENT_CAPABILITIES[agent]\<close> raises \<^verbatim>\<open>KeyError\<close> on an unknown agent.\<close>

fun extend_agent_domains :: "TaskDomain list \<Rightarrow> string list \<Rightarrow> error + TaskDomain list" where
  "extend_agent_domains ds [] = Inr ds"
| "extend_agent_domains ds (agent # rest) =
     (case map_of AGENT_CAPABILITIES agent of
        None \<Rightarrow> Inl KeyError
      | Some caps \<Rightarrow> extend_agent_domains (ds @ cap_domains caps) rest)"

fun pattern_domains ::
  "string \<Rightarrow> TaskDomain list \<Rightarrow> (string \<times> pattern) list \<Rightarrow> error + TaskDomain list" where
  "pattern_domains task_lower ds [] = Inr ds"
| "pattern_domains task_lower ds ((pattern_name, pattern_info) # rest) =
     (if any_keyword (pattern_keywords pattern_info) task_lower
      then (case extend_agent_domains ds (pattern_agents pattern_info) of
              Inl e \<Rightarrow> Inl e
            | Inr ds' \<Rightarrow> pattern_domains task_lower ds' rest)
      else pattern_domains task_lower ds rest)"

definition identify_domains :: "nondet \<Rightarrow> string \<Rightarrow> error + TaskDomain list" where
  "identify_domains nd task =
     (case pattern_domains (lower task) [] TASK_PATTERNS of
        Inl e \<Rightarrow> Inl e
      | Inr ds \<Rightarrow>
          (let ds' = domain_order nd ds
           in Inr (if ds' = [] then [FULL_STACK] else ds')))"

subsection \<open>\<^verbatim>\<open>_assess_complexity\<close>\<close>

definition complex_indicators :: "string list" where
  "complex_indicators =
     [''architecture'', ''system'', ''infrastructure'', ''migration'',
      ''integration'', ''optimization'', ''redesign'', ''refactor'']"

definition expert_indicators :: "string list" where
  "expert_indicators =
     [''enterprise'', ''scale'', ''distributed'', ''real-time'',
      ''high-performance'', ''security-critical'', ''compliance'']"

definition assess_complexity :: "string \<Rightarrow> TaskDomain list \<Rightarrow> TaskComplexity" where
  "assess_complexity task ds =
     (let task_lower = lower task
      in if any_keyword expert_indicators task_lower then EXPERT
         else if any_keyword complex_indicators task_lower then COMPLEX
         else if length ds > 2 then COMPLEX
         else if length ds = 2 then MODERATE
         else SIMPLE)"

subsection \<open>\<^verbatim>\<open>_select_agents\<close>\<close>

fun complexity_value :: "TaskComplexity \<Rightarrow> int" where
  "complexity_value SIMPLE = 1"
| "complexity_value MODERATE = 2"
| "complexity_value COMPLEX = 3"
| "complexity_value EXPERT = 4"

definition sensitive_keywords :: "string list" where
  "sensitive_keywords = [''auth'', ''login'', ''password'', ''payment'', ''sensitive'', ''secure'']"

text \<open>The set \<^verbatim>\<open>selected_agents\<close> is the list of its insertions, in the order of
  the four stages of the source.\<close>

definition matched_agents :: "string \<Rightarrow> string list" where
  "matched_agents task_lower =
     concat (map (\<lambda>(pattern_name, pattern_info).
                    if any_keyword (pattern_keywords pattern_info) task_lower
                    then pattern_agents pattern_info else [])
                 TASK_PATTERNS)"

definition domain_agents :: "TaskDomain list \<Rightarrow> TaskComplexity \<Rightarrow> string list" where
  "domain_agents ds c =
     concat (map (\<lambda>d. map fst
                    (filter (\<lambda>(agent, caps).
                               d \<in> set (cap_domains caps) \<and>
                               complexity_value c \<le> complexity_value (complexity_limit caps))
                            AGENT_CAPABILITIES))
                 ds)"

definition select_agents ::
  "nondet \<Rightarrow> string \<Rightarrow> TaskDomain list \<Rightarrow> TaskComplexity \<Rightarrow> string list" where
  "select_agents nd task ds c =
     (let task_lower = lower task;
          selected_agents =
            matched_agents task_lower
            @ domain_agents ds c
            @ (if c \<in> {COMPLEX, EXPERT} then [''qa-expert''] else [])
            @ (if any_keyword sensitive_keywords task_lower then [''security-expert''] else [])
      in agent_order nd selected_agents)"

section \<open>The decomposer\<close>

subsection \<open>\<^verbatim>\<open>_generate_subtask_description\<close>\<close>

text \<open>\<^verbatim>\<open>TaskDomain.value\<close>\<close>

fun domain_value :: "TaskDomain \<Rightarrow> string" where
  "domain_value BACKEND = ''backend''"
| "domain_value FRONTEND = ''frontend''"
| "domain_value DATABASE = ''database''"
| "domain_value DEVOPS = ''devops''"
| "domain_value SECURITY = ''security''"
| "domain_value TESTING = ''testing''"
| "domain_value ML_AI = ''ml_ai''"
| "domain_value MOBILE = ''mobile''"
| "domain_value GAME = ''game''"
| "domain_value IOT = ''iot''"
| "domain_value DESIGN = ''design''"
| "domain_value REFACTORING = ''refactoring''"
| "domain_value FULL_STACK = ''full_stack''"

definition upper_char :: "char \<Rightarrow> char" where
  "upper_char c =
     (case map_of (zip ''abcdefghijklmnopqrstuvwxyz'' ''ABCDEFGHIJKLMNOPQRSTUVWXYZ'') c of
        Some u \<Rightarrow> u
      | None \<Rightarrow> c)"

definition is_cased :: "char \<Rightarrow> bool" where
  "is_cased c = (lower_char c \<noteq> c \<or> upper_char c \<noteq> c)"

text \<open>\<^verbatim>\<open>str.title\<close> on ASCII: a letter that follows a letter is lowered, any other
  letter is raised. The flag is \<^verbatim>\<open>previous_is_cased\<close>.\<close>

fun title_from :: "bool \<Rightarrow> string \<Rightarrow> string" where
  "title_from previous_is_cased [] = []"
| "title_from previous_is_cased (c # cs) =
     (if is_cased c
      then (if previous_is_cased then lower_char c else upper_char c) # title_from True cs
      else c # title_from False cs)"

definition title :: "string \<Rightarrow> string" where
  "title s = title_from False s"

text \<open>\<^verbatim>\<open>sep.join(xs)\<close>\<close>

fun join :: "string \<Rightarrow> string list \<Rightarrow> string" where
  "join sep [] = []"
| "join sep [x] = x"
| "join sep (x # y # ys) = x @ sep @ join sep (y # ys)"

definition templates :: "string \<Rightarrow> (string \<times> string) list" where
  "templates task =
    [(''backend-expert'', ''Implement backend services and APIs for: '' @ task),
     (''frontend-expert'', ''Create user interface and frontend components for: '' @ task),
     (''database-expert'', ''Design and optimize database schema for: '' @ task),
     (''devops-expert'', ''Set up infrastructure and deployment for: '' @ task),
     (''security-expert'',
        ''Perform security audit and implement security measures for: '' @ task),
     (''qa-expert'', ''Create and run comprehensive tests for: '' @ task),
     (''ai-ml-expert'', ''Develop and train machine learning models for: '' @ task),
     (''mobile-expert'', ''Implement mobile application features for: '' @ task),
     (''game-expert'', ''Develop game mechanics and systems for: '' @ task),
     (''hardware-iot-expert'', ''Implement IoT/hardware integration for: '' @ task),
     (''uiux-principal'', ''Design user experience and interface for: '' @ task),
     (''web-design-agent'', ''Create web design and implementation for: '' @ task),
     (''refactor-agent'', ''Refactor and optimize code for: '' @ task)]"

text \<open>The argument \<open>ds\<close> is the enumeration of the set \<^verbatim>\<open>domains\<close>.\<close>

definition generate_subtask_description :: "string \<Rightarrow> string \<Rightarrow> TaskDomain list \<Rightarrow> string" where
  "generate_subtask_description task agent ds =
     (let agent_name = title (map (\<lambda>c. if c = CHR ''-'' then CHR '' '' else c) agent);
          domain_str = join '', '' (map domain_value ds)
      in case map_of (templates task) agent of
           Some t \<Rightarrow> t
         | None \<Rightarrow> agent_name @ '' handles '' @ domain_str @ '' aspects of: '' @ task)"

subsection \<open>\<^verbatim>\<open>_calculate_priority\<close> and \<^verbatim>\<open>_estimate_agent_time\<close>\<close>

definition calculate_priority :: "string \<Rightarrow> TaskDomain list \<Rightarrow> int" where
  "calculate_priority agent ds =
     (if agent \<in> set [''uiux-principal'', ''web-design-agent''] then 1
      else if agent = ''database-expert'' then 2
      else if agent = ''backend-expert'' then 3
      else if agent = ''frontend-expert'' then 4
      else if agent \<in> set [''qa-expert'', ''security-expert''] then 5
      else if agent = ''devops-expert'' then 6
      else 4)"

definition complexity_multipliers :: "(string \<times> real) list" where
  "complexity_multipliers =
    [(''backend-expert'', 12 / 10), (''frontend-expert'', 1), (''database-expert'', 8 / 10),
     (''devops-expert'', 15 / 10), (''security-expert'', 2), (''qa-expert'', 13 / 10),
     (''ai-ml-expert'', 3), (''mobile-expert'', 15 / 10), (''game-expert'', 2),
     (''hardware-iot-expert'', 25 / 10), (''uiux-principal'', 1), (''web-design-agent'', 12 / 10),
     (''refactor-agent'', 18 / 10)]"

definition estimate_agent_time :: "string \<Rightarrow> string \<Rightarrow> real" where
  "estimate_agent_time agent task =
     (let base_time = real (length task) * (1 / 100);
          multiplier = (case map_of complexity_multipliers agent of Some m \<Rightarrow> m | None \<Rightarrow> 1)
      in base_time * multiplier)"

subsection \<open>\<^verbatim>\<open>_establish_dependencies\<close>\<close>

text \<open>
  The source sorts the list of subtask objects and then assigns to the field
  \<^verbatim>\<open>dependencies\<close> of objects that the original list shares with the sorted one. The
  model makes the sharing explicit: an object is its position in the list \<open>sts\<close>, the store
  is the list itself, \<open>sorted_tasks\<close> is the list of positions in the order of
  \<^verbatim>\<open>sorted(subtasks, key=lambda x: x.priority)\<close> (a stable sort, as \<open>sort_key\<close> is), and
  one pass of the loop body updates the store at one position. The function returns the
  list in its original order.
\<close>

definition establish_step :: "nat list \<Rightarrow> SubTask list \<Rightarrow> nat \<Rightarrow> SubTask list" where
  "establish_step sorted_tasks store i =
     (if i > 0
      then (let task = sorted_tasks ! i;
                prev_priority = priority (store ! (sorted_tasks ! (i - 1)))
            in if priority (store ! task) > prev_priority
               then store[task := (store ! task)
                      \<lparr>dependencies :=
                         map (\<lambda>t. subtask_id (store ! t))
                           (filter (\<lambda>t. priority (store ! t) = prev_priority)
                              (take i sorted_tasks))\<rparr>]
               else store)
      else store)"

definition establish_dependencies :: "SubTask list \<Rightarrow> SubTask list" where
  "establish_dependencies sts =
     (let sorted_tasks = sort_key (\<lambda>a. priority (sts ! a)) [0..<length sts]
      in foldl (establish_step sorted_tasks) sts [0..<length sorted_tasks])"

subsection \<open>\<^verbatim>\<open>_decompose_task\<close>\<close>

text \<open>
  The loop over the agents. \<open>k\<close> counts the calls of \<^verbatim>\<open>uuid4\<close> made so far. The set
  \<^verbatim>\<open>agent_domains\<close> is the list of the agent's domains that are task domains; its
  enumeration gives the primary domain \<^verbatim>\<open>list(agent_domains)[0]\<close>.
\<close>

fun decompose_loop ::
  "nondet \<Rightarrow> nat \<Rightarrow> string \<Rightarrow> TaskDomain list \<Rightarrow> string list \<Rightarrow> error + SubTask list" where
  "decompose_loop nd k task ds [] = Inr []"
| "decompose_loop nd k task ds (agent # rest) =
     (case map_of AGENT_CAPABILITIES agent of
        None \<Rightarrow> Inl KeyError
      | Some caps \<Rightarrow>
          (let agent_domains = filter (\<lambda>d. d \<in> set ds) (cap_domains caps)
           in if agent_domains \<noteq> []
              then (case domain_order nd agent_domains of
                      [] \<Rightarrow> Inl IndexError
                    | primary # others \<Rightarrow>
                        (case decompose_loop nd (Suc k) task ds rest of
                           Inl e \<Rightarrow> Inl e
                         | Inr sts \<Rightarrow>
                             Inr (\<lparr>subtask_id = ''subtask_'' @ uuid4_hex8 nd k,
                                   description =
                                     generate_subtask_description task agent (primary # others),
                                   agent_id = agent,
                                   domain = primary,
                                   dependencies = [],
                                   priority = calculate_priority agent ds,
                                   estimated_time = estimate_agent_time agent task\<rparr> # sts)))
              else decompose_loop nd k task ds rest))"

definition decompose_task ::
  "nondet \<Rightarrow> nat \<Rightarrow> string \<Rightarrow> string list \<Rightarrow> TaskDomain list \<Rightarrow> error + SubTask list" where
  "decompose_task nd k task agents ds =
     (case decompose_loop nd k task ds agents of
        Inl e \<Rightarrow> Inl e
      | Inr sts \<Rightarrow> Inr (establish_dependencies sts))"

subsection \<open>\<^verbatim>\<open>_analyze_dependencies\<close>\<close>

definition analyze_dependencies :: "SubTask list \<Rightarrow> (string \<rightharpoonup> string list)" where
  "analyze_dependencies sts =
     foldl (\<lambda>m task. m(subtask_id task \<mapsto> dependencies task)) Map.empty sts"

section \<open>The execution graph and the time estimate\<close>

subsection \<open>The part of \<^verbatim>\<open>networkx\<close> that the engine calls\<close>

text \<open>
  \<^verbatim>\<open>networkx\<close> is a third-party library; the model follows its documented behaviour.
  A \<^verbatim>\<open>DiGraph\<close> holds its nodes and its edges, each with a dictionary of attributes.
  The engine uses one attribute key only, \<^verbatim>\<open>'time'\<close>, so a dictionary of attributes is
  the value under that key, if any. \<^verbatim>\<open>add_node(n, time=t)\<close> creates the node or updates
  its attribute; \<^verbatim>\<open>add_edge(u, v)\<close> creates missing end points without attributes and
  the edge without attributes.
\<close>

record DiGraph =
  nodes :: "(string \<times> real option) list"
  edges :: "((string \<times> string) \<times> real option) list"

definition empty_DiGraph :: DiGraph where
  "empty_DiGraph = \<lparr>nodes = [], edges = []\<rparr>"

definition add_node :: "string \<Rightarrow> real \<Rightarrow> DiGraph \<Rightarrow> DiGraph" where
  "add_node n t G =
     (if n \<in> fst ` set (nodes G)
      then G\<lparr>nodes := map (\<lambda>(m, a). if m = n then (m, Some t) else (m, a)) (nodes G)\<rparr>
      else G\<lparr>nodes := nodes G @ [(n, Some t)]\<rparr>)"

definition touch_node :: "string \<Rightarrow> DiGraph \<Rightarrow> DiGraph" where
  "touch_node n G = (if n \<in> fst ` set (nodes G) then G else G\<lparr>nodes := nodes G @ [(n, None)]\<rparr>)"

definition add_edge :: "string \<Rightarrow> string \<Rightarrow> DiGraph \<Rightarrow> DiGraph" where
  "add_edge u v G =
     (let G' = touch_node v (touch_node u G)
      in if (u, v) \<in> fst ` set (edges G') then G'
         else G'\<lparr>edges := edges G' @ [((u, v), None)]\<rparr>)"

definition number_of_nodes :: "DiGraph \<Rightarrow> nat" where
  "number_of_nodes G = length (nodes G)"

text \<open>
  \<^verbatim>\<open>topological_sort\<close> removes, generation after generation, the nodes without an
  incoming edge from a remaining node, and raises \<^verbatim>\<open>NetworkXUnfeasible\<close> when nodes
  remain and none can be removed (the graph has a cycle): the result \<open>None\<close>. Every
  generation removes a node, so the number of nodes bounds the number of generations.
\<close>

fun topological_generations ::
  "nat \<Rightarrow> string list \<Rightarrow> (string \<times> string) list \<Rightarrow> string list option" where
  "topological_generations 0 remaining es = (if remaining = [] then Some [] else None)"
| "topological_generations (Suc fuel) remaining es =
     (let zero_indegree =
            filter (\<lambda>v. \<not> list_ex (\<lambda>(u, w). w = v \<and> u \<in> set remaining) es) remaining
      in if zero_indegree = [] then (if remaining = [] then Some [] else None)
         else map_option ((@) zero_indegree)
                (topological_generations fuel
                   (filter (\<lambda>v. v \<notin> set zero_indegree) remaining) es))"

definition topological_sort :: "DiGraph \<Rightarrow> string list option" where
  "topological_sort G =
     topological_generations (length (nodes G)) (map fst (nodes G)) (map fst (edges G))"

text \<open>
  \<^verbatim>\<open>dag_longest_path_length(G, weight=key, default_weight=1)\<close> reads the weight of an
  \<^emph>\<open>edge\<close> from the edge's attribute \<open>key\<close> and takes \<open>default_weight\<close> for an edge
  without that attribute; node attributes are not read. In topological order it gives
  every node the largest sum, over its incoming edges, of the predecessor's value and
  the edge weight, or 0 when there is no incoming edge or that sum is negative; the
  result is the largest value, and 0 for the graph without nodes.
\<close>

definition edge_weight :: "real option \<Rightarrow> real" where
  "edge_weight a = (case a of Some w \<Rightarrow> w | None \<Rightarrow> 1)"

fun longest_dist ::
  "((string \<times> string) \<times> real option) list \<Rightarrow> string list \<Rightarrow> (string \<times> real) list
     \<Rightarrow> (string \<times> real) list" where
  "longest_dist es [] dists = dists"
| "longest_dist es (v # topo_order) dists =
     (let us = map (\<lambda>((u, w), a).
                      (case map_of dists u of Some l \<Rightarrow> l | None \<Rightarrow> 0) + edge_weight a)
                 (filter (\<lambda>((u, w), a). w = v) es)
      in longest_dist es topo_order (dists @ [(v, fold max us 0)]))"

definition dag_longest_path_length :: "DiGraph \<Rightarrow> real option" where
  "dag_longest_path_length G =
     (case topological_sort G of
        None \<Rightarrow> None
      | Some topo_order \<Rightarrow> Some (fold max (map snd (longest_dist (edges G) topo_order [])) 0))"

subsection \<open>\<^verbatim>\<open>_estimate_time\<close>\<close>

definition add_subtask :: "DiGraph \<Rightarrow> SubTask \<Rightarrow> DiGraph" where
  "add_subtask G task =
     foldl (\<lambda>G' dep. add_edge dep (subtask_id task) G')
       (add_node (subtask_id task) (estimated_time task) G) (dependencies task)"

definition execution_graph :: "SubTask list \<Rightarrow> DiGraph" where
  "execution_graph sts = foldl add_subtask empty_DiGraph sts"

text \<open>The bare \<^verbatim>\<open>except\<close> turns the exception of a cyclic graph into the sum of the
  durations. The parameter \<open>deps\<close> is not read, as in the source.\<close>

definition estimate_time :: "SubTask list \<Rightarrow> (string \<rightharpoonup> string list) \<Rightarrow> real" where
  "estimate_time sts deps =
     (if sts = [] then 0
      else (let G = execution_graph sts
            in if number_of_nodes G > 0
               then (case dag_longest_path_length G of
                       Some longest_path_length \<Rightarrow> longest_path_length
                     | None \<Rightarrow> sum_list (map estimated_time sts))
               else sum_list (map estimated_time sts)))"

subsection \<open>\<^verbatim>\<open>_calculate_confidence\<close>\<close>

definition calculate_confidence :: "string \<Rightarrow> TaskDomain list \<Rightarrow> string list \<Rightarrow> real" where
  "calculate_confidence task ds agents =
     (let c1 = (if length task < 20 then 1 * (8 / 10) else 1);
          c2 = (if length ds > 3 then c1 * (9 / 10) else c1);
          c3 = (if length agents > 5 then c2 * (85 / 100) else c2);
          c4 = (if list_ex (\<lambda>(pattern_name, pattern_info).
                              any_keyword (pattern_keywords pattern_info) (lower task))
                     TASK_PATTERNS
                then c3 * (11 / 10) else c3)
      in min c4 1)"

subsection \<open>\<^verbatim>\<open>analyze_task\<close>\<close>

definition analyze_task :: "nondet \<Rightarrow> string \<Rightarrow> error + TaskAnalysis" where
  "analyze_task nd task =
     (case identify_domains nd task of
        Inl e \<Rightarrow> Inl e
      | Inr ds \<Rightarrow>
          (let c = assess_complexity task ds;
               agents = select_agents nd task ds c
           in case decompose_task nd 1 task agents ds of
                Inl e \<Rightarrow> Inl e
              | Inr sts \<Rightarrow>
                  (let deps = analyze_dependencies sts
                   in Inr \<lparr>task_id = ''task_'' @ uuid4_hex8 nd 0,
                           original_task = task,
                           complexity = c,
                           domains = ds,
                           required_agents = agents,
                           subtasks = sts,
                           analysis_dependencies = deps,
                           analysis_estimated_time = estimate_time sts deps,
                           confidence = calculate_confidence task ds agents\<rparr>)))"

section \<open>Execution\<close>

subsection \<open>Dictionaries that are iterated\<close>

text \<open>\<^verbatim>\<open>d[k] = v\<close> on a dictionary kept as an association list in insertion order:
  a key that is present keeps its place.\<close>

fun dict_set :: "'k \<Rightarrow> 'v \<Rightarrow> ('k \<times> 'v) list \<Rightarrow> ('k \<times> 'v) list" where
  "dict_set k v [] = [(k, v)]"
| "dict_set k v ((k', v') # kvs) =
     (if k' = k then (k, v) # kvs else (k', v') # dict_set k v kvs)"

subsection \<open>\<^verbatim>\<open>_execute_single_task\<close>\<close>

text \<open>The dictionary that the execution of one subtask returns.\<close>

record ExecResult =
  result_task_id :: string
  result_agent_id :: string
  status :: string
  result_output :: string
  execution_time :: real

definition execute_single_task :: "SubTask \<Rightarrow> ExecResult" where
  "execute_single_task task =
     \<lparr>result_task_id = subtask_id task,
      result_agent_id = agent_id task,
      status = ''completed'',
      result_output = ''Completed: '' @ description task,
      execution_time = estimated_time task\<rparr>"

subsection \<open>\<^verbatim>\<open>_execute_subtasks\<close>\<close>

text \<open>
  \<^verbatim>\<open>_execute_subtasks\<close> starts one coroutine \<^verbatim>\<open>execute_when_ready\<close> per subtask and
  awaits them all. The coroutines share the dictionary \<^verbatim>\<open>results\<close> and the set
  \<^verbatim>\<open>completed\<close>; the event loop interleaves them at their \<^verbatim>\<open>await\<close>s. A coroutine
  is \<open>Waiting\<close> while it is in its polling loop, \<open>Running\<close> while it awaits
  \<^verbatim>\<open>_execute_single_task\<close>, and \<open>Done\<close> after it has stored its result. The model is
  the transition system of these interleavings: a coroutine is the position of its
  subtask in the list.

  The method call \<^verbatim>\<open>self._execute_single_task(task)\<close> is the parameter \<open>ex\<close>; the
  engine's own method is \<open>execute_single_task\<close>.
\<close>

datatype phase = Waiting | Running | Done

record sched =
  phases :: "phase list"
  results :: "(string \<times> ExecResult) list"
  completed :: "string set"

definition initial :: "SubTask list \<Rightarrow> sched" where
  "initial sts = \<lparr>phases = replicate (length sts) Waiting, results = [], completed = {}\<rparr>"

text \<open>The loop condition \<^verbatim>\<open>all(dep in completed for dep in task.dependencies)\<close>\<close>

definition ready :: "sched \<Rightarrow> SubTask \<Rightarrow> bool" where
  "ready s task = list_all (\<lambda>dep. dep \<in> completed s) (dependencies task)"

definition start :: "nat \<Rightarrow> sched \<Rightarrow> sched" where
  "start i s = s\<lparr>phases := (phases s)[i := Running]\<rparr>"

definition finish :: "(SubTask \<Rightarrow> ExecResult) \<Rightarrow> SubTask list \<Rightarrow> nat \<Rightarrow> sched \<Rightarrow> sched" where
  "finish ex sts i s =
     s\<lparr>phases := (phases s)[i := Done],
       results := dict_set (subtask_id (sts ! i)) (ex (sts ! i)) (results s),
       completed := insert (subtask_id (sts ! i)) (completed s)\<rparr>"

text \<open>One step of the event loop: a waiting coroutine finds its dependencies completed
  and enters the execution of its subtask, or a running one returns and stores its
  result. A waiting coroutine whose dependencies are not completed sleeps and changes
  nothing.\<close>

inductive step :: "(SubTask \<Rightarrow> ExecResult) \<Rightarrow> SubTask list \<Rightarrow> sched \<Rightarrow> sched \<Rightarrow> bool"
  for ex :: "SubTask \<Rightarrow> ExecResult" and sts :: "SubTask list" where
  Start: "i < length sts \<Longrightarrow> phases s ! i = Waiting \<Longrightarrow> ready s (sts ! i)
            \<Longrightarrow> step ex sts s (start i s)"
| Finish: "i < length sts \<Longrightarrow> phases s ! i = Running
            \<Longrightarrow> step ex sts s (finish ex sts i s)"

inductive reachable :: "(SubTask \<Rightarrow> ExecResult) \<Rightarrow> SubTask list \<Rightarrow> sched \<Rightarrow> bool"
  for ex :: "SubTask \<Rightarrow> ExecResult" and sts :: "SubTask list" where
  Init: "reachable ex sts (initial sts)"
| Step: "reachable ex sts s \<Longrightarrow> step ex sts s s' \<Longrightarrow> reachable ex sts s'"

text \<open>\<^verbatim>\<open>asyncio.gather\<close> returns when every coroutine has returned.\<close>

definition all_done :: "sched \<Rightarrow> bool" where
  "all_done s = list_all (\<lambda>p. p = Done) (phases s)"

subsection \<open>\<^verbatim>\<open>_merge_results\<close>\<close>

record summary =
  total_tasks :: nat
  agents_involved :: nat
  all_successful :: bool

record merged =
  combined_output :: "string list"
  by_agent :: "(string \<times> ExecResult list) list"
  merged_summary :: summary

definition merge_step :: "merged \<Rightarrow> string \<times> ExecResult \<Rightarrow> merged" where
  "merge_step m kv =
     (let result = snd kv; agent = result_agent_id result;
          m1 = m\<lparr>combined_output := combined_output m @ [result_output result]\<rparr>;
          m2 = (if agent \<notin> fst ` set (by_agent m1)
                then m1\<lparr>by_agent := by_agent m1 @ [(agent, [])]\<rparr> else m1)
      in m2\<lparr>by_agent :=
               map (\<lambda>(a, rs). if a = agent then (a, rs @ [result]) else (a, rs)) (by_agent m2)\<rparr>)"

definition merge_results :: "(string \<times> ExecResult) list \<Rightarrow> merged" where
  "merge_results rs =
     (let m = foldl merge_step
                \<lparr>combined_output = [], by_agent = [],
                 merged_summary = \<lparr>total_tasks = 0, agents_involved = 0, all_successful = True\<rparr>\<rparr>
                rs
      in m\<lparr>merged_summary :=
             \<lparr>total_tasks = length rs,
              agents_involved = length (by_agent m),
              all_successful = list_all (\<lambda>r. status r = ''completed'') (map snd rs)\<rparr>\<rparr>)"

subsection \<open>\<^verbatim>\<open>_record_execution\<close>\<close>

fun complexity_name :: "TaskComplexity \<Rightarrow> string" where
  "complexity_name SIMPLE = ''simple''"
| "complexity_name MODERATE = ''moderate''"
| "complexity_name COMPLEX = ''complex''"
| "complexity_name EXPERT = ''expert''"

text \<open>Python's true division: \<^verbatim>\<open>ZeroDivisionError\<close> on a zero divisor.\<close>

definition py_div :: "real \<Rightarrow> real \<Rightarrow> error + real" where
  "py_div a b = (if b = 0 then Inl ZeroDivisionError else Inr (a / b))"

record execution_record =
  record_task_id :: string
  timestamp :: string
  record_complexity :: string
  record_domains :: "string list"
  record_agents :: "string list"
  record_execution_time :: real
  record_estimated_time :: real
  accuracy :: real
  record_confidence :: real
  success :: bool

record metrics =
  metrics_total_tasks :: nat
  total_time :: real
  success_rate :: real
  avg_accuracy :: real

text \<open>The fields of the engine that \<^verbatim>\<open>_record_execution\<close> writes.\<close>

record engine =
  execution_history :: "execution_record list"
  performance_metrics :: "string \<rightharpoonup> metrics"

text \<open>The conditional expression of the field \<^verbatim>\<open>'accuracy'\<close>\<close>

definition record_accuracy :: "real \<Rightarrow> real \<Rightarrow> error + real" where
  "record_accuracy exec_time est_time =
     (if est_time > 0 then py_div exec_time est_time else Inr 1)"

text \<open>The body of the loop \<^verbatim>\<open>for agent_id in analysis.required_agents\<close>; \<open>n\<close> is
  \<^verbatim>\<open>len(analysis.required_agents)\<close>.\<close>

definition update_metrics ::
  "bool \<Rightarrow> real \<Rightarrow> nat \<Rightarrow> (string \<rightharpoonup> metrics) \<Rightarrow> string \<Rightarrow> error + (string \<rightharpoonup> metrics)" where
  "update_metrics ok exec_time n pm agent =
     (let m0 = (case pm agent of
                  None \<Rightarrow> \<lparr>metrics_total_tasks = 0, total_time = 0,
                            success_rate = 0, avg_accuracy = 0\<rparr>
                | Some m \<Rightarrow> m);
          m1 = m0\<lparr>metrics_total_tasks := metrics_total_tasks m0 + 1\<rparr>
      in case py_div exec_time (real n) of
           Inl e \<Rightarrow> Inl e
         | Inr share \<Rightarrow>
             (let m2 = m1\<lparr>total_time := total_time m1 + share\<rparr>
              in if ok
                 then (case py_div
                              (success_rate m2 * (real (metrics_total_tasks m2) - 1) + 1)
                              (real (metrics_total_tasks m2)) of
                         Inl e \<Rightarrow> Inl e
                       | Inr rate \<Rightarrow> Inr (pm(agent \<mapsto> m2\<lparr>success_rate := rate\<rparr>)))
                 else Inr (pm(agent \<mapsto> m2))))"

fun update_all_metrics ::
  "bool \<Rightarrow> real \<Rightarrow> nat \<Rightarrow> (string \<rightharpoonup> metrics) \<Rightarrow> string list \<Rightarrow> error + (string \<rightharpoonup> metrics)" where
  "update_all_metrics ok exec_time n pm [] = Inr pm"
| "update_all_metrics ok exec_time n pm (agent # rest) =
     (case update_metrics ok exec_time n pm agent of
        Inl e \<Rightarrow> Inl e
      | Inr pm' \<Rightarrow> update_all_metrics ok exec_time n pm' rest)"

text \<open>\<open>now\<close> is \<^verbatim>\<open>datetime.now().isoformat()\<close>.\<close>

definition record_execution ::
  "string \<Rightarrow> engine \<Rightarrow> TaskAnalysis \<Rightarrow> merged \<Rightarrow> real \<Rightarrow> error + engine" where
  "record_execution now eng analysis result exec_time =
     (case record_accuracy exec_time (analysis_estimated_time analysis) of
        Inl e \<Rightarrow> Inl e
      | Inr acc \<Rightarrow>
          (let rec = \<lparr>record_task_id = task_id analysis,
                      timestamp = now,
                      record_complexity = complexity_name (complexity analysis),
                      record_domains = map domain_value (domains analysis),
                      record_agents = required_agents analysis,
                      record_execution_time = exec_time,
                      record_estimated_time = analysis_estimated_time analysis,
                      accuracy = acc,
                      record_confidence = confidence analysis,
                      success = all_successful (merged_summary result)\<rparr>
           in case update_all_metrics (all_successful (merged_summary result)) exec_time
                     (length (required_agents analysis)) (performance_metrics eng)
                     (required_agents analysis) of
                Inl e \<Rightarrow> Inl e
              | Inr pm \<Rightarrow>
                  Inr (eng\<lparr>execution_history := execution_history eng @ [rec],
                           performance_metrics := pm\<rparr>)))"

section \<open>Concrete inputs\<close>

text \<open>A fixed choice for the non-determinism: the identifiers \<open>00000000\<close>,
  \<open>00000001\<close>, ... and sets enumerated in the order of first insertion.\<close>

definition hex8 :: "nat \<Rightarrow> string" where
  "hex8 k = ''0000000'' @ [''0123456789abcdef'' ! (k mod 16)]"

definition nd0 :: nondet where
  "nd0 = \<lparr>uuid4_hex8 = hex8, domain_order = remdups, agent_order = remdups\<rparr>"

text \<open>The engine before its first run.\<close>

definition engine0 :: engine where
  "engine0 = \<lparr>execution_history = [], performance_metrics = Map.empty\<rparr>"

text \<open>The role ids declared in the capability registry.\<close>

definition known_agents :: "string set" where
  "known_agents = fst ` set AGENT_CAPABILITIES"

text \<open>The task text of scenario A, and the part of an analysis that the scenario
  speaks about: the domain set, the complexity and the role set.\<close>

definition scenario_A :: string where
  "scenario_A = ''Create a REST API for user management''"

definition classification ::
  "error + TaskAnalysis \<Rightarrow> (TaskDomain set \<times> TaskComplexity \<times> string set) option" where
  "classification r =
     (case r of Inl e \<Rightarrow> None
      | Inr a \<Rightarrow> Some (set (domains a), complexity a, set (required_agents a)))"

text \<open>The same enumeration orders as \<open>nd0\<close>, other identifiers.\<close>

definition nd2 :: nondet where
  "nd2 = nd0\<lparr>uuid4_hex8 := (\<lambda>k. hex8 (k + 8))\<rparr>"

section \<open>The formulas of the specification\<close>

text \<open>
  The critical path as the specification words it: every subtask weighs its estimated
  duration, the length of a path is the sum of the weights of its subtasks, and the
  estimate is the length of the longest path of the dependency graph. \<open>spec_path_to\<close> is
  the longest path that ends in a subtask; a path has at most as many subtasks as the
  list, which bounds the recursion.
\<close>

fun spec_path_to :: "nat \<Rightarrow> SubTask list \<Rightarrow> SubTask \<Rightarrow> real" where
  "spec_path_to 0 sts task = estimated_time task"
| "spec_path_to (Suc fuel) sts task =
     estimated_time task +
     fold max (map (spec_path_to fuel sts)
                 (filter (\<lambda>t. subtask_id t \<in> set (dependencies task)) sts)) 0"

definition spec_critical_path :: "SubTask list \<Rightarrow> real" where
  "spec_critical_path sts = fold max (map (spec_path_to (length sts) sts) sts) 0"

text \<open>The incremental mean as the specification words it: \<open>n\<close> is the new number of
  tasks, \<open>outcome\<close> is 1 for a successful run and 0 for a failed one.\<close>

definition spec_success_rate :: "real \<Rightarrow> nat \<Rightarrow> real \<Rightarrow> real" where
  "spec_success_rate old_rate n outcome = (old_rate * (real n - 1) + outcome) / real n"

text \<open>The update of an agent's metrics as the specification words it: one more task, the
  share of the elapsed time among the \<open>n\<close> agents of the run, and the incremental mean
  with the outcome of the run.\<close>

definition spec_updated_metrics :: "real \<Rightarrow> nat \<Rightarrow> real \<Rightarrow> metrics \<Rightarrow> metrics" where
  "spec_updated_metrics exec_time n outcome m =
     m\<lparr>metrics_total_tasks := metrics_total_tasks m + 1,
       total_time := total_time m + exec_time / real n,
       success_rate := spec_success_rate (success_rate m) (metrics_total_tasks m + 1) outcome\<rparr>"

section \<open>More concrete inputs\<close>

text \<open>The subtasks of scenario A.\<close>

definition subtask_backend :: SubTask where
  "subtask_backend =
     \<lparr>subtask_id = ''subtask_00000001'',
      description =
        ''Implement backend services and APIs for: Create a REST API for user management'',
      agent_id = ''backend-expert'', domain = BACKEND, dependencies = [],
      priority = 3, estimated_time = 111 / 250\<rparr>"

definition subtask_frontend :: SubTask where
  "subtask_frontend =
     \<lparr>subtask_id = ''subtask_00000002'',
      description =
        ''Create user interface and frontend components for: Create a REST API for user management'',
      agent_id = ''frontend-expert'', domain = FULL_STACK,
      dependencies = [''subtask_00000001''], priority = 4, estimated_time = 37 / 100\<rparr>"

definition subtasks_A :: "SubTask list" where
  "subtasks_A = [subtask_backend, subtask_frontend]"

text \<open>The subtasks of an analysis, or the error.\<close>

definition subtasks_of :: "error + TaskAnalysis \<Rightarrow> error + SubTask list" where
  "subtasks_of r = (case r of Inl e \<Rightarrow> Inl e | Inr a \<Rightarrow> Inr (subtasks a))"

text \<open>The estimate of an analysis, or the error.\<close>

definition estimate_of :: "error + TaskAnalysis \<Rightarrow> error + real" where
  "estimate_of r = (case r of Inl e \<Rightarrow> Inl e | Inr a \<Rightarrow> Inr (analysis_estimated_time a))"

section \<open>Runs of the engine\<close>

text \<open>The entry of an agent in \<^verbatim>\<open>performance_metrics\<close> as the recorder reads it: an
  agent without an entry gets one with zeros first.\<close>

definition current_metrics :: "engine \<Rightarrow> string \<Rightarrow> metrics" where
  "current_metrics eng agent =
     (case performance_metrics eng agent of
        None \<Rightarrow> \<lparr>metrics_total_tasks = 0, total_time = 0, success_rate = 0, avg_accuracy = 0\<rparr>
      | Some m \<Rightarrow> m)"

text \<open>The run in which the event loop executes the subtasks one after the other, in the
  order of the list.\<close>

definition sequential_run :: "(SubTask \<Rightarrow> ExecResult) \<Rightarrow> SubTask list \<Rightarrow> sched" where
  "sequential_run ex sts =
     foldl (\<lambda>s i. finish ex sts i (start i s)) (initial sts) [0..<length sts]"

text \<open>\<^verbatim>\<open>execute_task\<close> on the analysis of a text, for the sequential run: the results
  are merged and the run is recorded with the elapsed time \<open>exec_time\<close>.\<close>

definition record_sequential_run ::
  "string \<Rightarrow> engine \<Rightarrow> error + TaskAnalysis \<Rightarrow> real \<Rightarrow> error + engine" where
  "record_sequential_run now eng r exec_time =
     (case r of
        Inl e \<Rightarrow> Inl e
      | Inr analysis \<Rightarrow>
          record_execution now eng analysis
            (merge_results (results (sequential_run execute_single_task (subtasks analysis))))
            exec_time)"




section \<open>The dependency graph of a list of subtasks\<close>




section \<open>Inputs for the scheduler\<close>

text \<open>The subtasks of the text \<open>test audit\<close>: two subtasks of one priority tier.\<close>

definition subtasks_audit :: "SubTask list" where
  "subtasks_audit =
     [\<lparr>subtask_id = ''subtask_00000001'',
       description =
         ''Perform security audit and implement security measures for: test audit'',
       agent_id = ''security-expert'', domain = SECURITY, dependencies = [],
       priority = 5, estimated_time = 1 / 5\<rparr>,
      \<lparr>subtask_id = ''subtask_00000002'',
       description = ''Create and run comprehensive tests for: test audit'',
       agent_id = ''qa-expert'', domain = TESTING, dependencies = [],
       priority = 5, estimated_time = 13 / 100\<rparr>]"

text \<open>The state of the run of the subtasks of scenario A in which the first subtask
  has returned and the second is still waiting.\<close>

definition after_backend :: sched where
  "after_backend = finish execute_single_task subtasks_A 0 (start 0 (initial subtasks_A))"

section \<open>Properties of the task analysis\<close>

subsection \<open>The analysis raises nothing\<close>

lemmas table_defs = TASK_PATTERNS_def mk_pattern_def AGENT_CAPABILITIES_def mk_capability_def

lemma set_order_set: "set_order f \<Longrightarrow> set (f xs) = set xs"
  by (simp add: set_order_def)

lemma set_order_distinct: "set_order f \<Longrightarrow> distinct (f xs)"
  by (simp add: set_order_def)

lemma set_order_Nil_iff: "set_order f \<Longrightarrow> (f xs = []) = (xs = [])"
  using set_order_set [of f xs] by (metis set_empty)

lemma set_order_length: "set_order f \<Longrightarrow> length (f xs) = card (set xs)"
  using set_order_set [of f xs] set_order_distinct [of f xs] by (metis distinct_card)

lemma set_order_remdups: "set_order remdups"
  by (simp add: set_order_def)

lemma valid_nd0: "valid_nondet nd0"
  by (simp add: valid_nondet_def nd0_def set_order_remdups)

lemma known_lookup: "a \<in> known_agents \<Longrightarrow> \<exists>caps. map_of AGENT_CAPABILITIES a = Some caps"
  unfolding known_agents_def by (metis map_of_eq_None_iff not_Some_eq)

lemma extend_agent_domains_total:
  "set as \<subseteq> known_agents \<Longrightarrow> \<exists>ds'. extend_agent_domains ds as = Inr ds'"
proof (induction as arbitrary: ds)
  case Nil
  then show ?case by simp
next
  case (Cons a as)
  from Cons.prems have "a \<in> known_agents" by simp
  then obtain caps where "map_of AGENT_CAPABILITIES a = Some caps"
    using known_lookup by blast
  with Cons show ?case by simp
qed

lemma pattern_domains_total:
  "\<forall>(n, p) \<in> set ps. set (pattern_agents p) \<subseteq> known_agents
     \<Longrightarrow> \<exists>ds'. pattern_domains txt ds ps = Inr ds'"
proof (induction ps arbitrary: ds)
  case Nil
  then show ?case by simp
next
  case (Cons np ps)
  obtain n p where np: "np = (n, p)" by (cases np)
  from Cons.prems np have "set (pattern_agents p) \<subseteq> known_agents" by simp
  then obtain ds1 where "extend_agent_domains ds (pattern_agents p) = Inr ds1"
    using extend_agent_domains_total by blast
  moreover from Cons.prems have "\<forall>(n, p) \<in> set ps. set (pattern_agents p) \<subseteq> known_agents"
    by simp
  ultimately show ?case using Cons.IH np by simp
qed

lemma patterns_known: "\<forall>(n, p) \<in> set TASK_PATTERNS. set (pattern_agents p) \<subseteq> known_agents"
  by (simp add: known_agents_def table_defs)

lemma identify_domains_total: "\<exists>ds. identify_domains nd task = Inr ds \<and> ds \<noteq> []"
proof -
  obtain ds where "pattern_domains (lower task) [] TASK_PATTERNS = Inr ds"
    using pattern_domains_total [OF patterns_known] by blast
  then show ?thesis by (simp add: identify_domains_def Let_def)
qed

lemma matched_agents_known: "set (matched_agents txt) \<subseteq> known_agents"
  using patterns_known by (fastforce simp: matched_agents_def split: if_splits)

lemma domain_agents_known: "set (domain_agents ds c) \<subseteq> known_agents"
  by (auto simp: domain_agents_def known_agents_def)

lemma qa_known: "''qa-expert'' \<in> known_agents" and security_known: "''security-expert'' \<in> known_agents"
  by (simp_all add: known_agents_def table_defs)

lemma select_agents_known:
  "set_order (agent_order nd) \<Longrightarrow> set (select_agents nd task ds c) \<subseteq> known_agents"
  using matched_agents_known domain_agents_known qa_known security_known
  by (auto simp: select_agents_def Let_def set_order_set)

lemma decompose_loop_total:
  "set_order (domain_order nd) \<Longrightarrow> set as \<subseteq> known_agents
     \<Longrightarrow> \<exists>sts. decompose_loop nd k task ds as = Inr sts"
proof (induction as arbitrary: k)
  case Nil
  then show ?case by simp
next
  case (Cons a as)
  from Cons.prems have "a \<in> known_agents" by simp
  then obtain caps where caps: "map_of AGENT_CAPABILITIES a = Some caps"
    using known_lookup by blast
  from Cons obtain sts1 where s1: "decompose_loop nd (Suc k) task ds as = Inr sts1" by fastforce
  from Cons obtain sts2 where s2: "decompose_loop nd k task ds as = Inr sts2" by fastforce
  show ?case
  proof (cases "filter (\<lambda>d. d \<in> set ds) (cap_domains caps) = []")
    case True
    then show ?thesis using caps s2 by simp
  next
    case False
    then have "domain_order nd (filter (\<lambda>d. d \<in> set ds) (cap_domains caps)) \<noteq> []"
      using Cons.prems(1) by (simp add: set_order_Nil_iff)
    then obtain p ps where "domain_order nd (filter (\<lambda>d. d \<in> set ds) (cap_domains caps)) = p # ps"
      by (cases "domain_order nd (filter (\<lambda>d. d \<in> set ds) (cap_domains caps))") auto
    then show ?thesis using caps s1 False by (simp add: Let_def)
  qed
qed

lemma analyze_task_fields:
  assumes "valid_nondet nd"
  shows "\<exists>a ds. analyze_task nd task = Inr a \<and> identify_domains nd task = Inr ds \<and> ds \<noteq> [] \<and>
           domains a = ds \<and> complexity a = assess_complexity task ds \<and>
           required_agents a = select_agents nd task ds (assess_complexity task ds)"
proof -
  obtain ds where ds: "identify_domains nd task = Inr ds" "ds \<noteq> []"
    using identify_domains_total by blast
  let ?c = "assess_complexity task ds"
  let ?as = "select_agents nd task ds ?c"
  from assms have "set ?as \<subseteq> known_agents"
    by (simp add: valid_nondet_def select_agents_known)
  moreover from assms have "set_order (domain_order nd)" by (simp add: valid_nondet_def)
  ultimately obtain sts where "decompose_loop nd 1 task ds ?as = Inr sts"
    using decompose_loop_total by blast
  then show ?thesis using ds
    by (simp add: analyze_task_def decompose_task_def Let_def)
qed

lemma analyze_task_result:
  assumes "analyze_task nd task = Inr a"
  shows "\<exists>ds sts. identify_domains nd task = Inr ds \<and>
           decompose_task nd 1 task (select_agents nd task ds (assess_complexity task ds)) ds
             = Inr sts \<and>
           task_id a = ''task_'' @ uuid4_hex8 nd 0 \<and>
           subtasks a = sts \<and>
           analysis_estimated_time a = estimate_time sts (analyze_dependencies sts)"
proof (cases "identify_domains nd task")
  case (Inl e)
  with assms show ?thesis by (simp add: analyze_task_def)
next
  case (Inr ds)
  note ds = this
  let ?as = "select_agents nd task ds (assess_complexity task ds)"
  show ?thesis
  proof (cases "decompose_task nd 1 task ?as ds")
    case (Inl e)
    with assms ds show ?thesis by (simp add: analyze_task_def Let_def)
  next
    case (Inr sts)
    with assms ds have "a = \<lparr>task_id = ''task_'' @ uuid4_hex8 nd 0,
                           original_task = task,
                           complexity = assess_complexity task ds,
                           domains = ds,
                           required_agents = ?as,
                           subtasks = sts,
                           analysis_dependencies = analyze_dependencies sts,
                           analysis_estimated_time = estimate_time sts (analyze_dependencies sts),
                           confidence = calculate_confidence task ds ?as\<rparr>"
      by (simp add: analyze_task_def Let_def)
    then show ?thesis using ds Inr by simp
  qed
qed

subsection \<open>Domains and agents are never empty\<close>

lemma patterns_nonempty: "\<forall>(n, p) \<in> set TASK_PATTERNS. pattern_agents p \<noteq> []"
  by (simp add: table_defs)

lemma matched_agents_Nil:
  assumes "matched_agents txt = []"
  shows "\<forall>(n, p) \<in> set TASK_PATTERNS. \<not> any_keyword (pattern_keywords p) txt"
proof -
  have "\<forall>(n, p) \<in> set TASK_PATTERNS.
          (if any_keyword (pattern_keywords p) txt then pattern_agents p else []) = []"
    using assms by (auto simp: matched_agents_def)
  with patterns_nonempty show ?thesis by (auto split: if_splits)
qed

lemma pattern_domains_no_match:
  "\<forall>(n, p) \<in> set ps. \<not> any_keyword (pattern_keywords p) txt
     \<Longrightarrow> pattern_domains txt ds ps = Inr ds"
  by (induction ps arbitrary: ds) auto

lemma identify_domains_no_match:
  assumes "set_order (domain_order nd)" and "matched_agents (lower task) = []"
  shows "identify_domains nd task = Inr [FULL_STACK]"
proof -
  have "pattern_domains (lower task) [] TASK_PATTERNS = Inr []"
    using matched_agents_Nil [OF assms(2)] by (rule pattern_domains_no_match)
  moreover have "domain_order nd [] = []"
    using assms(1) by (simp add: set_order_Nil_iff)
  ultimately show ?thesis by (simp add: identify_domains_def)
qed

lemma full_stack_backend: "''backend-expert'' \<in> set (domain_agents [FULL_STACK] c)"
  by (cases c) (simp_all add: domain_agents_def AGENT_CAPABILITIES_def mk_capability_def)

lemma select_agents_set:
  "set_order (agent_order nd) \<Longrightarrow>
   set (select_agents nd task ds c) =
     set (matched_agents (lower task)) \<union> set (domain_agents ds c)
     \<union> (if c \<in> {COMPLEX, EXPERT} then {''qa-expert''} else {})
     \<union> (if any_keyword sensitive_keywords (lower task) then {''security-expert''} else {})"
  by (simp add: select_agents_def Let_def set_order_set)

text \<open>Claim C7. For every task text, the empty one and those matching no pattern
  included, and for every way the sets are enumerated, \<^verbatim>\<open>analyze_task\<close> returns an analysis
  (it raises nothing) whose domain list is not empty and whose list of required agents is not
  empty and holds only role ids declared in \<^verbatim>\<open>AGENT_CAPABILITIES\<close>.\<close>

theorem analyze_task_nonempty:
  assumes "valid_nondet nd"
  shows "\<exists>a. analyze_task nd task = Inr a \<and> domains a \<noteq> [] \<and> required_agents a \<noteq> [] \<and>
           set (required_agents a) \<subseteq> fst ` set AGENT_CAPABILITIES"
proof -
  from assms have so: "set_order (domain_order nd)" "set_order (agent_order nd)"
    by (simp_all add: valid_nondet_def)
  obtain a ds where a: "analyze_task nd task = Inr a" "identify_domains nd task = Inr ds"
      "ds \<noteq> []" "domains a = ds" "complexity a = assess_complexity task ds"
      "required_agents a = select_agents nd task ds (assess_complexity task ds)"
    using analyze_task_fields [OF assms] by blast
  let ?c = "assess_complexity task ds"
  have known: "set (required_agents a) \<subseteq> fst ` set AGENT_CAPABILITIES"
    using select_agents_known [OF so(2)] a(6) by (simp add: known_agents_def)
  have "set (select_agents nd task ds ?c) \<noteq> {}"
  proof (cases "matched_agents (lower task) = []")
    case True
    then have "ds = [FULL_STACK]"
      using identify_domains_no_match [OF so(1)] a(2) by simp
    then have "''backend-expert'' \<in> set (domain_agents ds ?c)"
      using full_stack_backend by simp
    then show ?thesis by (auto simp: select_agents_set [OF so(2)])
  next
    case False
    then show ?thesis by (simp add: select_agents_set [OF so(2)])
  qed
  then have "required_agents a \<noteq> []" using a(6) by auto
  with a known show ?thesis by simp
qed

theorem analyze_task_nonempty_witness:
  "valid_nondet nd0 \<and>
   (\<exists>a. analyze_task nd0 [] = Inr a \<and> domains a \<noteq> [] \<and> required_agents a \<noteq> [] \<and>
        set (required_agents a) \<subseteq> fst ` set AGENT_CAPABILITIES)"
  using analyze_task_nonempty [of nd0 "[]"] valid_nd0 by (simp only: simp_thms)

subsection \<open>Classification does not depend on the identifiers or on set order\<close>

lemma identify_domains_shape:
  assumes "set_order (domain_order nd)"
    and "pattern_domains (lower task) [] TASK_PATTERNS = Inr D"
  shows "\<exists>ds. identify_domains nd task = Inr ds \<and>
           set ds = (if D = [] then {FULL_STACK} else set D) \<and>
           length ds = (if D = [] then 1 else card (set D))"
  using assms
  by (simp add: identify_domains_def Let_def set_order_Nil_iff set_order_set set_order_length)

lemma assess_complexity_length:
  "length ds = length ds' \<Longrightarrow> assess_complexity task ds = assess_complexity task ds'"
  by (simp add: assess_complexity_def)

lemma domain_agents_set:
  "set ds = set ds' \<Longrightarrow> set (domain_agents ds c) = set (domain_agents ds' c)"
  by (simp add: domain_agents_def)

text \<open>Claim C9. Two calls of \<^verbatim>\<open>analyze_task\<close> on the same text, whatever identifiers
  \<^verbatim>\<open>uuid4\<close> draws and in whatever order the sets are enumerated in each call, both return an
  analysis, with the same set of domains, the same complexity and the same set of required
  agents. When the two calls enumerate their sets in the same order, the two lists are equal
  as lists too. The witness shows two such calls whose task ids differ.\<close>

theorem analyze_task_deterministic:
  assumes "valid_nondet nd" and "valid_nondet nd'"
  shows "\<exists>a a'. analyze_task nd task = Inr a \<and> analyze_task nd' task = Inr a' \<and>
           set (domains a) = set (domains a') \<and>
           complexity a = complexity a' \<and>
           set (required_agents a) = set (required_agents a') \<and>
           (domain_order nd = domain_order nd' \<and> agent_order nd = agent_order nd' \<longrightarrow>
              domains a = domains a' \<and> required_agents a = required_agents a')"
proof -
  from assms have so: "set_order (domain_order nd)" "set_order (agent_order nd)"
      "set_order (domain_order nd')" "set_order (agent_order nd')"
    by (simp_all add: valid_nondet_def)
  obtain D where D: "pattern_domains (lower task) [] TASK_PATTERNS = Inr D"
    using pattern_domains_total [OF patterns_known] by blast
  obtain a ds where a: "analyze_task nd task = Inr a" "identify_domains nd task = Inr ds"
      "domains a = ds" "complexity a = assess_complexity task ds"
      "required_agents a = select_agents nd task ds (assess_complexity task ds)"
    using analyze_task_fields [OF assms(1)] by blast
  obtain a' ds' where a': "analyze_task nd' task = Inr a'" "identify_domains nd' task = Inr ds'"
      "domains a' = ds'" "complexity a' = assess_complexity task ds'"
      "required_agents a' = select_agents nd' task ds' (assess_complexity task ds')"
    using analyze_task_fields [OF assms(2)] by blast
  from identify_domains_shape [OF so(1) D] a(2)
  have ds: "set ds = (if D = [] then {FULL_STACK} else set D)"
      "length ds = (if D = [] then 1 else card (set D))" by simp_all
  from identify_domains_shape [OF so(3) D] a'(2)
  have ds': "set ds' = (if D = [] then {FULL_STACK} else set D)"
      "length ds' = (if D = [] then 1 else card (set D))" by simp_all
  have sets: "set ds = set ds'" using ds(1) ds'(1) by simp
  have c: "assess_complexity task ds = assess_complexity task ds'"
    using ds(2) ds'(2) by (intro assess_complexity_length) simp
  have ag: "set (required_agents a) = set (required_agents a')"
    using a(5) a'(5) c domain_agents_set [OF sets]
    by (simp add: select_agents_set [OF so(2)] select_agents_set [OF so(4)])
  have same: "domains a = domains a' \<and> required_agents a = required_agents a'"
    if "domain_order nd = domain_order nd'" "agent_order nd = agent_order nd'"
  proof -
    have "ds = ds'" using a(2) a'(2) D that(1) by (simp add: identify_domains_def)
    then show ?thesis using a(3,5) a'(3,5) that(2) by (simp add: select_agents_def)
  qed
  show ?thesis using a(1,3,4) a'(1,3,4) sets c ag same by auto
qed

lemma valid_nd2: "valid_nondet nd2"
  by (simp add: valid_nondet_def nd2_def nd0_def set_order_remdups)

theorem analyze_task_deterministic_witness:
  "valid_nondet nd0 \<and> valid_nondet nd2 \<and>
   (\<exists>a a'. analyze_task nd0 scenario_A = Inr a \<and> analyze_task nd2 scenario_A = Inr a' \<and>
      set (domains a) = set (domains a') \<and> complexity a = complexity a' \<and>
      set (required_agents a) = set (required_agents a') \<and>
      domains a = domains a' \<and> required_agents a = required_agents a' \<and>
      task_id a \<noteq> task_id a')"
proof -
  have orders: "domain_order nd0 = domain_order nd2 \<and> agent_order nd0 = agent_order nd2"
    by (simp add: nd2_def)
  obtain a a' where r: "analyze_task nd0 scenario_A = Inr a" "analyze_task nd2 scenario_A = Inr a'"
      "set (domains a) = set (domains a')" "complexity a = complexity a'"
      "set (required_agents a) = set (required_agents a')"
      "domain_order nd0 = domain_order nd2 \<and> agent_order nd0 = agent_order nd2 \<longrightarrow>
         domains a = domains a' \<and> required_agents a = required_agents a'"
    using analyze_task_deterministic [OF valid_nd0 valid_nd2, of scenario_A] by blast
  from r(6) orders have same: "domains a = domains a'" "required_agents a = required_agents a'"
    by blast+
  have "task_id a = ''task_'' @ uuid4_hex8 nd0 0" using analyze_task_result [OF r(1)] by blast
  moreover have "task_id a' = ''task_'' @ uuid4_hex8 nd2 0"
    using analyze_task_result [OF r(2)] by blast
  ultimately have ids: "task_id a \<noteq> task_id a'"
    by (simp add: nd2_def nd0_def hex8_def)
  from r(1-5) same ids valid_nd0 valid_nd2 show ?thesis by blast
qed

subsection \<open>Scenario A\<close>

lemma scenario_A_lower: "lower scenario_A = ''create a rest api for user management''"
  by (simp add: scenario_A_def lower_def lower_char_def)

lemma scenario_A_pattern_domains:
  "pattern_domains (lower scenario_A) [] TASK_PATTERNS = Inr [BACKEND, FULL_STACK]"
  by (simp add: scenario_A_lower table_defs any_keyword_def)

lemma scenario_A_matched_agents: "matched_agents (lower scenario_A) = [''backend-expert'']"
  by (simp add: scenario_A_lower matched_agents_def TASK_PATTERNS_def mk_pattern_def
        any_keyword_def)

lemma scenario_A_indicators:
  "\<not> any_keyword expert_indicators (lower scenario_A)"
  "\<not> any_keyword complex_indicators (lower scenario_A)"
  "\<not> any_keyword sensitive_keywords (lower scenario_A)"
  by (simp_all add: scenario_A_lower any_keyword_def expert_indicators_def
        complex_indicators_def sensitive_keywords_def)

lemma scenario_A_domain_agents:
  "set (domain_agents [BACKEND, FULL_STACK] MODERATE) = {''backend-expert'', ''frontend-expert''}"
  by (simp add: domain_agents_def AGENT_CAPABILITIES_def mk_capability_def insert_commute)

lemma scenario_A_fields:
  assumes "valid_nondet nd"
  shows "\<exists>a. analyze_task nd scenario_A = Inr a \<and>
           set (domains a) = {BACKEND, FULL_STACK} \<and>
           complexity a = MODERATE \<and>
           set (required_agents a) = {''backend-expert'', ''frontend-expert''}"
proof -
  from assms have so: "set_order (domain_order nd)" "set_order (agent_order nd)"
    by (simp_all add: valid_nondet_def)
  obtain a ds where a: "analyze_task nd scenario_A = Inr a"
      "identify_domains nd scenario_A = Inr ds"
      "domains a = ds" "complexity a = assess_complexity scenario_A ds"
      "required_agents a = select_agents nd scenario_A ds (assess_complexity scenario_A ds)"
    using analyze_task_fields [OF assms] by blast
  from identify_domains_shape [OF so(1) scenario_A_pattern_domains] a(2)
  have ds: "set ds = {BACKEND, FULL_STACK}" "length ds = 2" by simp_all
  have c: "assess_complexity scenario_A ds = MODERATE"
    using ds(2) scenario_A_indicators by (simp add: assess_complexity_def)
  have "set ds = set [BACKEND, FULL_STACK]" using ds(1) by simp
  then have "set (domain_agents ds MODERATE) = set (domain_agents [BACKEND, FULL_STACK] MODERATE)"
    by (rule domain_agents_set)
  then have "set (domain_agents ds MODERATE) = {''backend-expert'', ''frontend-expert''}"
    by (simp only: scenario_A_domain_agents)
  then have "set (select_agents nd scenario_A ds MODERATE)
               = {''backend-expert'', ''frontend-expert''}"
    using scenario_A_indicators(3)
    by (auto simp: select_agents_set [OF so(2)] scenario_A_matched_agents)
  with a ds c show ?thesis by simp
qed

text \<open>Claim C4, as the code has it. For the text of scenario A, \<^verbatim>\<open>analyze_task\<close> returns the
  domain set \<open>{BACKEND, FULL_STACK}\<close> (the keyword \<open>api\<close> belongs to the pattern
  \<open>api_development\<close>, whose agent \<open>backend-expert\<close> has both domains), the complexity
  \<open>MODERATE\<close> (two domains) and the role set \<open>{backend-expert, frontend-expert}\<close>
  (\<open>frontend-expert\<close> has the domain \<open>FULL_STACK\<close>). The third theorem below shows that the
  result is not \<open>({BACKEND}, MODERATE, {backend-expert})\<close>.\<close>

theorem scenario_A_classification:
  assumes "valid_nondet nd"
  shows "classification (analyze_task nd scenario_A) =
           Some ({BACKEND, FULL_STACK}, MODERATE, {''backend-expert'', ''frontend-expert''})"
proof -
  obtain a where "analyze_task nd scenario_A = Inr a"
      "set (domains a) = {BACKEND, FULL_STACK}" "complexity a = MODERATE"
      "set (required_agents a) = {''backend-expert'', ''frontend-expert''}"
    using scenario_A_fields [OF assms] by blast
  then show ?thesis by (simp add: classification_def)
qed

theorem scenario_A_classification_witness:
  "valid_nondet nd0 \<and>
   classification (analyze_task nd0 scenario_A) =
     Some ({BACKEND, FULL_STACK}, MODERATE, {''backend-expert'', ''frontend-expert''})"
  using scenario_A_classification [of nd0] valid_nd0 by (simp only: simp_thms)

theorem scenario_A_counterexample:
  "classification (analyze_task nd0 scenario_A) \<noteq> Some ({BACKEND}, MODERATE, {''backend-expert''})"
proof -
  obtain a where a: "analyze_task nd0 scenario_A = Inr a"
      "set (domains a) = {BACKEND, FULL_STACK}"
    using scenario_A_fields [OF valid_nd0] by blast
  have "FULL_STACK \<in> set (domains a)" using a(2) by simp
  then have "set (domains a) \<noteq> {BACKEND}" by auto
  with a(1) show ?thesis by (simp add: classification_def)
qed

section \<open>Properties of the time estimate\<close>

lemmas graph_defs = estimate_time_def execution_graph_def add_subtask_def add_node_def
  add_edge_def touch_node_def empty_DiGraph_def number_of_nodes_def
  dag_longest_path_length_def topological_sort_def edge_weight_def

lemma scenario_A_identify_domains: "identify_domains nd0 scenario_A = Inr [BACKEND, FULL_STACK]"
  by (simp add: identify_domains_def scenario_A_pattern_domains nd0_def)

lemma scenario_A_complexity: "assess_complexity scenario_A [BACKEND, FULL_STACK] = MODERATE"
  using scenario_A_indicators by (simp add: assess_complexity_def)

lemma scenario_A_select_agents:
  "select_agents nd0 scenario_A [BACKEND, FULL_STACK] MODERATE
     = [''backend-expert'', ''frontend-expert'']"
  using scenario_A_indicators(3)
  by (simp add: select_agents_def scenario_A_matched_agents nd0_def Let_def
        domain_agents_def AGENT_CAPABILITIES_def mk_capability_def)

lemma scenario_A_decompose_loop:
  "decompose_loop nd0 1 scenario_A [BACKEND, FULL_STACK] [''backend-expert'', ''frontend-expert'']
     = Inr [subtask_backend, subtask_frontend\<lparr>dependencies := []\<rparr>]"
  by (simp add: AGENT_CAPABILITIES_def mk_capability_def nd0_def hex8_def
        generate_subtask_description_def templates_def calculate_priority_def
        estimate_agent_time_def complexity_multipliers_def scenario_A_def
        subtask_backend_def subtask_frontend_def)

lemma establish_subtasks_A:
  "establish_dependencies [subtask_backend, subtask_frontend\<lparr>dependencies := []\<rparr>] = subtasks_A"
  by (simp add: establish_dependencies_def establish_step_def subtask_backend_def
        subtask_frontend_def subtasks_A_def upt_rec sort_key_def)

lemma scenario_A_analysis:
  "analyze_task nd0 scenario_A =
     Inr \<lparr>task_id = ''task_00000000'', original_task = scenario_A, complexity = MODERATE,
          domains = [BACKEND, FULL_STACK],
          required_agents = [''backend-expert'', ''frontend-expert''],
          subtasks = subtasks_A,
          analysis_dependencies = analyze_dependencies subtasks_A,
          analysis_estimated_time = estimate_time subtasks_A (analyze_dependencies subtasks_A),
          confidence = calculate_confidence scenario_A [BACKEND, FULL_STACK]
                         [''backend-expert'', ''frontend-expert'']\<rparr>"
proof -
  have "uuid4_hex8 nd0 0 = ''00000000''" by (simp add: nd0_def hex8_def)
  then show ?thesis
    by (simp only: analyze_task_def scenario_A_identify_domains scenario_A_complexity
          scenario_A_select_agents decompose_task_def scenario_A_decompose_loop
          establish_subtasks_A sum.case Let_def append.simps)
qed

lemma estimate_subtasks_A: "estimate_time subtasks_A deps = 1"
  by (simp add: graph_defs subtasks_A_def subtask_backend_def subtask_frontend_def)

lemma sum_subtasks_A: "sum_list (map estimated_time subtasks_A) = 407 / 500"
  by (simp add: subtasks_A_def subtask_backend_def subtask_frontend_def)

text \<open>Claim C1, where the code departs from it. The durations are stored as the attribute
  \<^verbatim>\<open>time\<close> of the \<^emph>\<open>nodes\<close>, but \<^verbatim>\<open>dag_longest_path_length(G, weight='time')\<close> reads
  the attribute of the \<^emph>\<open>edges\<close>, which have none, so every edge counts 1 and the estimate
  is the number of edges of the longest path. For the two subtasks of scenario A, of
  durations 111/250 and 37/100 with the second depending on the first, the code returns 1
  and the longest duration-weighted path is 407/500; for the first subtask alone the code
  returns 0 and the path is 111/250.\<close>

theorem estimate_time_is_not_the_weighted_path:
  "subtasks_of (analyze_task nd0 scenario_A) = Inr subtasks_A \<and>
   estimate_of (analyze_task nd0 scenario_A) = Inr 1 \<and>
   spec_critical_path subtasks_A = 407 / 500 \<and>
   estimate_time [subtask_backend] (analyze_dependencies [subtask_backend]) = 0 \<and>
   spec_critical_path [subtask_backend] = 111 / 250"
proof -
  have 1: "subtasks_of (analyze_task nd0 scenario_A) = Inr subtasks_A"
    by (simp add: scenario_A_analysis subtasks_of_def)
  have 2: "estimate_of (analyze_task nd0 scenario_A) = Inr 1"
    by (simp add: scenario_A_analysis estimate_of_def estimate_subtasks_A)
  have 3: "spec_critical_path subtasks_A = 407 / 500"
    by (simp add: spec_critical_path_def subtasks_A_def subtask_backend_def
          subtask_frontend_def numeral_2_eq_2)
  have 4: "estimate_time [subtask_backend] (analyze_dependencies [subtask_backend]) = 0"
    by (simp add: graph_defs subtask_backend_def)
  have 5: "spec_critical_path [subtask_backend] = 111 / 250"
    by (simp add: spec_critical_path_def subtask_backend_def)
  from 1 2 3 4 5 show ?thesis by (simp only: simp_thms)
qed

text \<open>Claim C5, where the code departs from it, by the same defect. For the two subtasks
  of scenario A the estimate of the code is 1 and the sum of the durations is 407/500: the
  estimate is larger than the sum.\<close>

theorem estimate_time_exceeds_the_sum:
  "estimate_time subtasks_A (analyze_dependencies subtasks_A) = 1 \<and>
   sum_list (map estimated_time subtasks_A) = 407 / 500 \<and>
   sum_list (map estimated_time subtasks_A)
     < estimate_time subtasks_A (analyze_dependencies subtasks_A)"
  by (simp add: estimate_subtasks_A sum_subtasks_A)

section \<open>Properties of the recorder\<close>

lemma record_accuracy_value: "record_accuracy e t = Inr (if t > 0 then e / t else 1)"
  by (simp add: record_accuracy_def py_div_def)




subsection \<open>Every result of a run is the result of one of its subtasks\<close>

lemma dict_set_subset: "set (dict_set k v kvs) \<subseteq> insert (k, v) (set kvs)"
  by (induction kvs) (auto split: if_splits)

lemma reachable_results:
  assumes "reachable ex sts s"
  shows "\<forall>(k, r)\<in>set (results s). \<exists>i<length sts. k = subtask_id (sts ! i) \<and> r = ex (sts ! i)"
  using assms
proof (induction rule: reachable.induct)
  case Init
  then show ?case by (simp add: initial_def)
next
  case (Step s s')
  from Step.hyps(2) show ?case
  proof (cases rule: step.cases)
    case (Start i)
    then show ?thesis using Step.IH by (simp add: start_def)
  next
    case (Finish i)
    have "set (results s') \<subseteq> insert (subtask_id (sts ! i), ex (sts ! i)) (set (results s))"
      using Finish(1) dict_set_subset by (simp add: finish_def)
    then show ?thesis using Step.IH Finish(2) by blast
  qed
qed

lemma reachable_all_successful:
  assumes "reachable execute_single_task sts s"
  shows "all_successful (merged_summary (merge_results (results s)))"
proof -
  have "status r = ''completed''" if "r \<in> snd ` set (results s)" for r
  proof -
    from that obtain k where "(k, r) \<in> set (results s)" by auto
    with reachable_results [OF assms] obtain i where "r = execute_single_task (sts ! i)"
      by blast
    then show ?thesis by (simp add: execute_single_task_def)
  qed
  then show ?thesis by (simp add: merge_results_def Let_def list_all_iff)
qed

subsection \<open>The loop over the agents\<close>

lemma update_metrics_successful:
  assumes "0 < n"
  shows "update_metrics True t n pm agent =
           Inr (pm(agent \<mapsto> spec_updated_metrics t n 1
                  (case pm agent of
                     None \<Rightarrow> \<lparr>metrics_total_tasks = 0, total_time = 0, success_rate = 0,
                               avg_accuracy = 0\<rparr>
                   | Some m \<Rightarrow> m)))"
  using assms
  by (simp add: update_metrics_def py_div_def Let_def spec_updated_metrics_def
        spec_success_rate_def)

lemma update_all_metrics_successful:
  assumes "0 < n" and "distinct agents"
  shows "\<exists>pm'. update_all_metrics True t n pm agents = Inr pm' \<and>
           (\<forall>a. pm' a =
              (if a \<in> set agents
               then Some (spec_updated_metrics t n 1
                      (case pm a of
                         None \<Rightarrow> \<lparr>metrics_total_tasks = 0, total_time = 0, success_rate = 0,
                                   avg_accuracy = 0\<rparr>
                       | Some m \<Rightarrow> m))
               else pm a))"
  using assms(2)
proof (induction agents arbitrary: pm)
  case Nil
  then show ?case by simp
next
  case (Cons agent rest)
  let ?pm1 = "pm(agent \<mapsto> spec_updated_metrics t n 1
                  (case pm agent of
                     None \<Rightarrow> \<lparr>metrics_total_tasks = 0, total_time = 0, success_rate = 0,
                               avg_accuracy = 0\<rparr>
                   | Some m \<Rightarrow> m))"
  from Cons.prems have d: "distinct rest" and notin: "agent \<notin> set rest" by simp_all
  from Cons.IH [OF d, of ?pm1] obtain pm' where pm':
      "update_all_metrics True t n ?pm1 rest = Inr pm'"
      "\<And>a. pm' a =
              (if a \<in> set rest
               then Some (spec_updated_metrics t n 1
                      (case ?pm1 a of
                         None \<Rightarrow> \<lparr>metrics_total_tasks = 0, total_time = 0, success_rate = 0,
                                   avg_accuracy = 0\<rparr>
                       | Some m \<Rightarrow> m))
               else ?pm1 a)"
    by blast
  have "update_all_metrics True t n pm (agent # rest) = Inr pm'"
    using pm'(1) by (simp add: update_metrics_successful [OF assms(1)])
  moreover have "pm' a =
              (if a \<in> set (agent # rest)
               then Some (spec_updated_metrics t n 1
                      (case pm a of
                         None \<Rightarrow> \<lparr>metrics_total_tasks = 0, total_time = 0, success_rate = 0,
                                   avg_accuracy = 0\<rparr>
                       | Some m \<Rightarrow> m))
               else pm a)" for a
    using pm'(2) [of a] notin by (cases "a = agent") auto
  ultimately show ?case by blast
qed

lemma select_agents_distinct:
  "set_order (agent_order nd) \<Longrightarrow> distinct (select_agents nd task ds c)"
  by (simp add: select_agents_def Let_def set_order_distinct)

lemma analyze_task_agents_distinct:
  assumes "valid_nondet nd" and "analyze_task nd task = Inr analysis"
  shows "distinct (required_agents analysis)"
proof -
  from assms(1) have so: "set_order (agent_order nd)" by (simp add: valid_nondet_def)
  obtain a ds where a: "analyze_task nd task = Inr a"
      "required_agents a = select_agents nd task ds (assess_complexity task ds)"
    using analyze_task_fields [OF assms(1)] by blast
  from a(1) assms(2) have "a = analysis" by simp
  with a(2) select_agents_distinct [OF so] show ?thesis by simp
qed

text \<open>Claim C8. Every run that \<^verbatim>\<open>execute_task\<close> records is successful: the results of
  the subtasks all have the status \<open>completed\<close>, so the flag \<open>all_successful\<close> of the merged
  result is true and the outcome of the formula is 1. For every analysis that
  \<^verbatim>\<open>analyze_task\<close> returns, every state of a run of its subtasks, every elapsed time and
  every agent of the analysis, the recorder returns a new engine in which the metrics of
  the agent are those it had (zeros when it had none) with one more task, the share of
  the elapsed time among the agents of the run added to the time, and the success rate
  \<open>(old_rate * (n - 1) + 1) / n\<close> for the new number \<open>n\<close> of tasks.\<close>

theorem record_execution_updates_metrics:
  assumes "valid_nondet nd" and "analyze_task nd task = Inr analysis"
    and "reachable execute_single_task (subtasks analysis) s"
    and "agent \<in> set (required_agents analysis)"
  shows "all_successful (merged_summary (merge_results (results s))) \<and>
         (\<exists>eng'. record_execution now eng analysis (merge_results (results s)) exec_time
                   = Inr eng' \<and>
                 performance_metrics eng' agent =
                   Some (spec_updated_metrics exec_time (length (required_agents analysis)) 1
                           (current_metrics eng agent)))"
proof -
  let ?agents = "required_agents analysis"
  have ok: "all_successful (merged_summary (merge_results (results s)))"
    by (rule reachable_all_successful [OF assms(3)])
  have n: "0 < length ?agents" using assms(4) by (cases ?agents) simp_all
  have d: "distinct ?agents" by (rule analyze_task_agents_distinct [OF assms(1,2)])
  obtain pm' where pm':
      "update_all_metrics True exec_time (length ?agents) (performance_metrics eng) ?agents
         = Inr pm'"
      "pm' agent = Some (spec_updated_metrics exec_time (length ?agents) 1
                           (current_metrics eng agent))"
    using update_all_metrics_successful [OF n d, of exec_time "performance_metrics eng"] assms(4)
    by (auto simp: current_metrics_def)
  have "\<exists>eng'. record_execution now eng analysis (merge_results (results s)) exec_time
                   = Inr eng' \<and> performance_metrics eng' = pm'"
    using ok pm'(1) by (simp add: record_execution_def record_accuracy_value Let_def)
  with ok pm'(2) show ?thesis by auto
qed

subsection \<open>Sequential runs\<close>


lemma sequential_run_two:
  assumes "dependencies a = []" and "set (dependencies b) \<subseteq> {subtask_id a}"
  shows "reachable ex [a, b] (sequential_run ex [a, b])"
proof -
  let ?sts = "[a, b]"
  let ?s0 = "initial ?sts"
  let ?s1 = "start 0 ?s0"
  let ?s2 = "finish ex ?sts 0 ?s1"
  let ?s3 = "start 1 ?s2"
  let ?s4 = "finish ex ?sts 1 ?s3"
  have r0: "reachable ex ?sts ?s0" by (rule reachable.Init)
  have "step ex ?sts ?s0 ?s1"
    by (rule step.Start) (simp_all add: initial_def ready_def assms)
  with r0 have r1: "reachable ex ?sts ?s1" by (rule reachable.Step)
  have "step ex ?sts ?s1 ?s2"
    by (rule step.Finish) (simp_all add: initial_def start_def)
  with r1 have r2: "reachable ex ?sts ?s2" by (rule reachable.Step)
  have "ready ?s2 b"
    using assms(2) by (auto simp: ready_def finish_def start_def initial_def list_all_iff)
  then have "step ex ?sts ?s2 ?s3"
    by (intro step.Start) (simp_all add: initial_def start_def finish_def)
  with r2 have r3: "reachable ex ?sts ?s3" by (rule reachable.Step)
  have "step ex ?sts ?s3 ?s4"
    by (rule step.Finish) (simp_all add: initial_def start_def finish_def)
  with r3 have "reachable ex ?sts ?s4" by (rule reachable.Step)
  moreover have "sequential_run ex ?sts = ?s4"
    by (simp add: sequential_run_def upt_rec)
  ultimately show ?thesis by simp
qed

lemma reachable_subtasks_A:
  "reachable execute_single_task subtasks_A (sequential_run execute_single_task subtasks_A)"
  unfolding subtasks_A_def
  by (rule sequential_run_two) (simp_all add: subtask_backend_def subtask_frontend_def)

theorem record_execution_updates_metrics_witness:
  "valid_nondet nd0 \<and>
   subtasks_of (analyze_task nd0 scenario_A) = Inr subtasks_A \<and>
   reachable execute_single_task subtasks_A (sequential_run execute_single_task subtasks_A) \<and>
   (\<exists>eng'. record_sequential_run ''2025-01-01T00:00:00'' engine0
              (analyze_task nd0 scenario_A) 2 = Inr eng' \<and>
           performance_metrics eng' ''backend-expert'' =
             Some \<lparr>metrics_total_tasks = 1, total_time = 1, success_rate = 1,
                   avg_accuracy = 0\<rparr>)"
proof -
  let ?a = "\<lparr>task_id = ''task_00000000'', original_task = scenario_A, complexity = MODERATE,
          domains = [BACKEND, FULL_STACK],
          required_agents = [''backend-expert'', ''frontend-expert''],
          subtasks = subtasks_A,
          analysis_dependencies = analyze_dependencies subtasks_A,
          analysis_estimated_time = estimate_time subtasks_A (analyze_dependencies subtasks_A),
          confidence = calculate_confidence scenario_A [BACKEND, FULL_STACK]
                         [''backend-expert'', ''frontend-expert'']\<rparr>"
  let ?s = "sequential_run execute_single_task subtasks_A"
  have a: "analyze_task nd0 scenario_A = Inr ?a" by (rule scenario_A_analysis)
  have r: "reachable execute_single_task (subtasks ?a) ?s"
    using reachable_subtasks_A by simp
  have m: "''backend-expert'' \<in> set (required_agents ?a)" by simp
  from record_execution_updates_metrics [OF valid_nd0 a r m,
      of "''2025-01-01T00:00:00''" engine0 2]
  obtain eng' where e:
      "record_execution ''2025-01-01T00:00:00'' engine0 ?a (merge_results (results ?s)) 2
         = Inr eng'"
      "performance_metrics eng' ''backend-expert'' =
         Some (spec_updated_metrics 2 (length (required_agents ?a)) 1
                 (current_metrics engine0 ''backend-expert''))"
    by blast
  have "spec_updated_metrics 2 (length (required_agents ?a)) 1
          (current_metrics engine0 ''backend-expert'')
        = \<lparr>metrics_total_tasks = 1, total_time = 1, success_rate = 1, avg_accuracy = 0\<rparr>"
    by (simp add: spec_updated_metrics_def spec_success_rate_def current_metrics_def
          engine0_def)
  with e have "\<exists>eng'. record_sequential_run ''2025-01-01T00:00:00'' engine0
              (analyze_task nd0 scenario_A) 2 = Inr eng' \<and>
           performance_metrics eng' ''backend-expert'' =
             Some \<lparr>metrics_total_tasks = 1, total_time = 1, success_rate = 1,
                   avg_accuracy = 0\<rparr>"
    by (simp add: record_sequential_run_def a)
  moreover have "subtasks_of (analyze_task nd0 scenario_A) = Inr subtasks_A"
    by (simp add: a subtasks_of_def)
  ultimately show ?thesis using valid_nd0 reachable_subtasks_A by blast
qed

subsection \<open>The estimate is never negative\<close>

















section \<open>Properties of the decomposer\<close>

subsection \<open>The loop of \<^verbatim>\<open>_establish_dependencies\<close>\<close>







subsection \<open>The edges of the execution graph\<close>









subsection \<open>A graph whose edges go up in rank has a topological order\<close>





section \<open>Properties of the scheduler\<close>

lemma reachable_invariant:
  assumes "reachable ex sts s"
  shows "length (phases s) = length sts \<and>
         completed s = {subtask_id (sts ! j) |j. j < length sts \<and> phases s ! j = Done} \<and>
         (\<forall>i<length sts. phases s ! i \<noteq> Waiting
            \<longrightarrow> set (dependencies (sts ! i)) \<subseteq> completed s)"
  using assms
proof (induction rule: reachable.induct)
  case Init
  then show ?case by (simp add: initial_def)
next
  case (Step s s')
  from Step.IH have len: "length (phases s) = length sts"
    and comp: "completed s = {subtask_id (sts ! j) |j. j < length sts \<and> phases s ! j = Done}"
    and deps: "\<And>i. i < length sts \<Longrightarrow> phases s ! i \<noteq> Waiting
                 \<Longrightarrow> set (dependencies (sts ! i)) \<subseteq> completed s"
    by blast+
  from Step.hyps(2) show ?case
  proof (cases rule: step.cases)
    case (Start i)
    have ph: "phases s' = (phases s)[i := Running]" and co: "completed s' = completed s"
      using Start(1) by (simp_all add: start_def)
    have same: "(phases s' ! j = Done) = (phases s ! j = Done)" if "j < length sts" for j
      using that Start(3) len by (cases "j = i") (simp_all add: ph)
    have 1: "length (phases s') = length sts" using len by (simp add: ph)
    have 2: "completed s' = {subtask_id (sts ! j) |j. j < length sts \<and> phases s' ! j = Done}"
      unfolding co comp using same by blast
    have 3: "set (dependencies (sts ! k)) \<subseteq> completed s'"
      if "k < length sts" "phases s' ! k \<noteq> Waiting" for k
    proof (cases "k = i")
      case True
      then show ?thesis using Start(4) by (auto simp: co ready_def list_all_iff)
    next
      case False
      then have "phases s ! k \<noteq> Waiting" using that(2) by (simp add: ph)
      then show ?thesis using deps [OF that(1)] by (simp add: co)
    qed
    from 1 2 3 show ?thesis by blast
  next
    case (Finish i)
    have ph: "phases s' = (phases s)[i := Done]"
      and co: "completed s' = insert (subtask_id (sts ! i)) (completed s)"
      using Finish(1) by (simp_all add: finish_def)
    have 1: "length (phases s') = length sts" using len by (simp add: ph)
    have done': "(phases s' ! j = Done) = (j = i \<or> phases s ! j = Done)" if "j < length sts" for j
      using that len by (cases "j = i") (simp_all add: ph)
    have 2: "completed s' = {subtask_id (sts ! j) |j. j < length sts \<and> phases s' ! j = Done}"
      unfolding co comp using done' Finish(2) by blast
    have 3: "set (dependencies (sts ! k)) \<subseteq> completed s'"
      if "k < length sts" "phases s' ! k \<noteq> Waiting" for k
    proof (cases "k = i")
      case True
      have "phases s ! i \<noteq> Waiting" using Finish(3) by simp
      from deps [OF Finish(2) this] show ?thesis using True by (auto simp: co)
    next
      case False
      then have "phases s ! k \<noteq> Waiting" using that(2) by (simp add: ph)
      from deps [OF that(1) this] show ?thesis by (auto simp: co)
    qed
    from 1 2 3 show ?thesis by blast
  qed
qed

text \<open>Claim C6. In every state of every run, a step that takes a subtask from waiting
  to running happens only when every identifier in its list of dependencies is the
  identifier of a subtask that is done, and this stays so while the subtask is running
  and after. Nothing else orders the subtasks: when two subtasks are both waiting with
  their dependencies completed, as subtasks of one priority tier are, either may
  start first, and after both have started both are running at once.\<close>

theorem running_only_after_dependencies:
  assumes "reachable ex sts s"
  shows "(\<forall>s' i. step ex sts s s' \<and> i < length sts \<and> phases s ! i = Waiting \<and>
                  phases s' ! i = Running \<longrightarrow>
            (\<forall>dep\<in>set (dependencies (sts ! i)).
               \<exists>j<length sts. subtask_id (sts ! j) = dep \<and> phases s ! j = Done)) \<and>
         (\<forall>i<length sts. phases s ! i \<noteq> Waiting \<longrightarrow>
            (\<forall>dep\<in>set (dependencies (sts ! i)).
               \<exists>j<length sts. subtask_id (sts ! j) = dep \<and> phases s ! j = Done)) \<and>
         (\<forall>i<length sts. \<forall>j<length sts.
            i \<noteq> j \<and> phases s ! i = Waiting \<and> phases s ! j = Waiting \<and>
            ready s (sts ! i) \<and> ready s (sts ! j) \<longrightarrow>
              reachable ex sts (start j (start i s)) \<and>
              phases (start j (start i s)) ! i = Running \<and>
              phases (start j (start i s)) ! j = Running)"
proof -
  from reachable_invariant [OF assms]
  have len: "length (phases s) = length sts"
    and comp: "completed s = {subtask_id (sts ! j) |j. j < length sts \<and> phases s ! j = Done}"
    and deps: "\<And>i. i < length sts \<Longrightarrow> phases s ! i \<noteq> Waiting
                 \<Longrightarrow> set (dependencies (sts ! i)) \<subseteq> completed s"
    by blast+
  have in_completed: "\<exists>j<length sts. subtask_id (sts ! j) = dep \<and> phases s ! j = Done"
    if "dep \<in> completed s" for dep
    using that unfolding comp by blast
  have A: "\<exists>j<length sts. subtask_id (sts ! j) = dep \<and> phases s ! j = Done"
    if st: "step ex sts s s'" and i: "i < length sts" "phases s ! i = Waiting"
      "phases s' ! i = Running" and dep: "dep \<in> set (dependencies (sts ! i))" for s' i dep
    using st
  proof (cases rule: step.cases)
    case (Start k)
    have "k = i"
    proof (rule ccontr)
      assume "k \<noteq> i"
      then have "phases s' ! i = phases s ! i" using Start(1) by (simp add: start_def)
      with i(2,3) show False by simp
    qed
    with Start(4) dep have "dep \<in> completed s" by (auto simp: ready_def list_all_iff)
    then show ?thesis by (rule in_completed)
  next
    case (Finish k)
    have "phases s' ! i \<noteq> Running"
    proof (cases "k = i")
      case True
      then show ?thesis using Finish(1) i(1) len by (simp add: finish_def)
    next
      case False
      then show ?thesis using Finish(1) i(2) by (simp add: finish_def)
    qed
    with i(3) show ?thesis by simp
  qed
  have B: "\<exists>j<length sts. subtask_id (sts ! j) = dep \<and> phases s ! j = Done"
    if "i < length sts" "phases s ! i \<noteq> Waiting" "dep \<in> set (dependencies (sts ! i))" for i dep
    using deps [OF that(1,2)] that(3) in_completed by blast
  have C: "reachable ex sts (start j (start i s)) \<and>
           phases (start j (start i s)) ! i = Running \<and>
           phases (start j (start i s)) ! j = Running"
    if ij: "i < length sts" "j < length sts" "i \<noteq> j" and w: "phases s ! i = Waiting"
      "phases s ! j = Waiting" and r: "ready s (sts ! i)" "ready s (sts ! j)" for i j
  proof -
    have "step ex sts s (start i s)" using ij(1) w(1) r(1) by (rule step.Start)
    with assms have r1: "reachable ex sts (start i s)" by (rule reachable.Step)
    have "phases (start i s) ! j = Waiting" using ij(3) w(2) by (simp add: start_def)
    moreover have "ready (start i s) (sts ! j)" using r(2) by (simp add: ready_def start_def)
    ultimately have "step ex sts (start i s) (start j (start i s))"
      using ij(2) by (intro step.Start)
    with r1 have "reachable ex sts (start j (start i s))" by (rule reachable.Step)
    moreover have "phases (start j (start i s)) ! i = Running"
      using ij len by (simp add: start_def)
    moreover have "phases (start j (start i s)) ! j = Running"
      using ij len by (simp add: start_def)
    ultimately show ?thesis by blast
  qed
  from A B C show ?thesis by blast
qed

lemma audit_subtasks: "subtasks_of (analyze_task nd0 ''test audit'') = Inr subtasks_audit"
  by code_simp

lemma after_backend_fields:
  "phases after_backend = [Done, Waiting]"
  "completed after_backend = {''subtask_00000001''}"
  by (simp_all add: after_backend_def finish_def start_def initial_def subtasks_A_def
        subtask_backend_def)

lemma reachable_after_backend: "reachable execute_single_task subtasks_A after_backend"
proof -
  let ?s0 = "initial subtasks_A"
  have r0: "reachable execute_single_task subtasks_A ?s0" by (rule reachable.Init)
  have "step execute_single_task subtasks_A ?s0 (start 0 ?s0)"
    by (rule step.Start)
      (simp_all add: initial_def ready_def subtasks_A_def subtask_backend_def)
  with r0 have r1: "reachable execute_single_task subtasks_A (start 0 ?s0)"
    by (rule reachable.Step)
  have "step execute_single_task subtasks_A (start 0 ?s0)
          (finish execute_single_task subtasks_A 0 (start 0 ?s0))"
    by (rule step.Finish) (simp_all add: initial_def start_def subtasks_A_def)
  with r1 show ?thesis unfolding after_backend_def by (rule reachable.Step)
qed

lemma step_after_backend:
  "step execute_single_task subtasks_A after_backend (start 1 after_backend)"
  by (rule step.Start)
    (simp_all add: after_backend_fields ready_def subtasks_A_def subtask_frontend_def)

theorem running_only_after_dependencies_witness:
  "reachable execute_single_task subtasks_A after_backend \<and>
   step execute_single_task subtasks_A after_backend (start 1 after_backend) \<and>
   phases after_backend ! 1 = Waiting \<and>
   phases (start 1 after_backend) ! 1 = Running \<and>
   dependencies (subtasks_A ! 1) = [''subtask_00000001''] \<and>
   list_all (\<lambda>dep. list_ex (\<lambda>j. subtask_id (subtasks_A ! j) = dep \<and>
                                phases after_backend ! j = Done)
                       [0..<length subtasks_A])
     (dependencies (subtasks_A ! 1)) \<and>
   subtasks_of (analyze_task nd0 ''test audit'') = Inr subtasks_audit \<and>
   reachable execute_single_task subtasks_audit (start 1 (start 0 (initial subtasks_audit))) \<and>
   phases (start 1 (start 0 (initial subtasks_audit))) ! 0 = Running \<and>
   phases (start 1 (start 0 (initial subtasks_audit))) ! 1 = Running"
proof -
  have w: "phases after_backend ! 1 = Waiting" by (simp add: after_backend_fields)
  have ru: "phases (start 1 after_backend) ! 1 = Running"
    by (simp add: start_def after_backend_fields)
  have l: "1 < length subtasks_A" by (simp add: subtasks_A_def)
  have d: "dependencies (subtasks_A ! 1) = [''subtask_00000001'']"
    by (simp add: subtasks_A_def subtask_frontend_def)
  from running_only_after_dependencies [OF reachable_after_backend]
  have "\<forall>s' i. step execute_single_task subtasks_A after_backend s' \<and> i < length subtasks_A \<and>
          phases after_backend ! i = Waiting \<and> phases s' ! i = Running \<longrightarrow>
            (\<forall>dep\<in>set (dependencies (subtasks_A ! i)).
               \<exists>j<length subtasks_A. subtask_id (subtasks_A ! j) = dep \<and>
                  phases after_backend ! j = Done)"
    by blast
  with step_after_backend l w ru
  have "\<forall>dep\<in>set (dependencies (subtasks_A ! 1)).
          \<exists>j<length subtasks_A. subtask_id (subtasks_A ! j) = dep \<and>
             phases after_backend ! j = Done"
    by blast
  then have a: "list_all (\<lambda>dep. list_ex (\<lambda>j. subtask_id (subtasks_A ! j) = dep \<and>
                                phases after_backend ! j = Done)
                       [0..<length subtasks_A])
     (dependencies (subtasks_A ! 1))"
    by (simp add: list_all_iff list_ex_iff Bex_def)
  have i0: "reachable execute_single_task subtasks_audit (initial subtasks_audit)"
    by (rule reachable.Init)
  have pre: "0 < length subtasks_audit" "1 < length subtasks_audit" "(0::nat) \<noteq> 1"
      "phases (initial subtasks_audit) ! 0 = Waiting"
      "phases (initial subtasks_audit) ! 1 = Waiting"
      "ready (initial subtasks_audit) (subtasks_audit ! 0)"
      "ready (initial subtasks_audit) (subtasks_audit ! 1)"
    by (simp_all add: subtasks_audit_def initial_def ready_def)
  from running_only_after_dependencies [OF i0]
  have "\<forall>i<length subtasks_audit. \<forall>j<length subtasks_audit.
            i \<noteq> j \<and> phases (initial subtasks_audit) ! i = Waiting \<and>
            phases (initial subtasks_audit) ! j = Waiting \<and>
            ready (initial subtasks_audit) (subtasks_audit ! i) \<and>
            ready (initial subtasks_audit) (subtasks_audit ! j) \<longrightarrow>
              reachable execute_single_task subtasks_audit
                (start j (start i (initial subtasks_audit))) \<and>
              phases (start j (start i (initial subtasks_audit))) ! i = Running \<and>
              phases (start j (start i (initial subtasks_audit))) ! j = Running"
    by blast
  with pre have c:
      "reachable execute_single_task subtasks_audit (start 1 (start 0 (initial subtasks_audit)))"
      "phases (start 1 (start 0 (initial subtasks_audit))) ! 0 = Running"
      "phases (start 1 (start 0 (initial subtasks_audit))) ! 1 = Running"
    by blast+
  from reachable_after_backend step_after_backend w ru d a audit_subtasks c
  show ?thesis by (simp only: simp_thms)
qed

end
